theory Spec2Isabelle
  imports Main
begin

section \<open>Python values, exceptions and the library\<close>

text \<open>
  The program is \<^verbatim>\<open>persistent_chat.py\<close>, kept in two variants:
  \<^verbatim>\<open>persistent_chat-QwenEdited.py\<close> (an \<^verbatim>\<open>httpx\<close> client, no persona) and
  \<^verbatim>\<open>persistent_chat - Copy.py\<close> (an \<^verbatim>\<open>OpenAI\<close> client, with the persona preamble
  \<^verbatim>\<open>SYSTEM_MESSAGE\<close>). \<^verbatim>\<open>RateLimiter\<close>, \<^verbatim>\<open>_load_memory\<close> and \<^verbatim>\<open>_save_memory\<close> are the same text
  in both; \<^verbatim>\<open>_make_api_request\<close> and \<^verbatim>\<open>chat\<close> differ and are modelled once per variant.

  A \<^verbatim>\<open>str\<close> is a \<open>string\<close> (code points below 256). A naive \<^verbatim>\<open>datetime\<close> is the number of
  microseconds since the first representable instant, the resolution of the type.
\<close>

type_synonym datetime = int

datatype json =
    JNull
  | JBool bool
  | JNum int
  | JStr string
  | JArr "json list"
  | JObj "(string \<times> json) list"

text \<open>The exceptions that the modelled code can meet. Every one is an \<^verbatim>\<open>Exception\<close>.\<close>

datatype error =
    ValueError
  | KeyError
  | TypeError
  | ValidationError
  | JSONDecodeError
  | UnicodeDecodeError
  | FileNotFoundError
  | FileExistsError
  | OSError
  | ReadTimeout
  | TransportError
  | AttributeError
  | HTTPStatusError nat
  | APIError
  | OverflowError

text \<open>
  What the code takes from its libraries and does not define itself:
  \<^item> \<open>json_load\<close>: \<^verbatim>\<open>json.load(f)\<close> on the bytes of a file opened as UTF-8 text; it raises
    \<^verbatim>\<open>JSONDecodeError\<close> on text that is not JSON and \<^verbatim>\<open>UnicodeDecodeError\<close> on bytes that are
    not UTF-8;
  \<^item> \<open>json_dumps\<close>: the text that \<^verbatim>\<open>json.dump(obj, f, indent=2, ensure_ascii=False)\<close> writes;
  \<^item> \<open>isoformat\<close>, \<open>fromisoformat\<close>: the methods of \<^verbatim>\<open>datetime\<close>; the latter raises
    \<^verbatim>\<open>ValueError\<close> (here \<open>None\<close>) on a string it does not accept;
  \<^item> \<open>coerce_str\<close>, \<open>coerce_dict\<close>: what pydantic does with a value that is not already a
    \<^verbatim>\<open>str\<close> (a \<^verbatim>\<open>dict\<close>) in a field declared \<^verbatim>\<open>str\<close> (\<^verbatim>\<open>Dict\<close>): \<open>None\<close> is a
    \<^verbatim>\<open>ValidationError\<close>; the answer depends on the pydantic version;
  \<^item> \<open>status_raises\<close>: whether \<^verbatim>\<open>httpx.Response.raise_for_status()\<close> raises on a status
    code that is neither 2xx nor 4xx nor 5xx (it depends on the version of httpx);
  \<^item> \<open>exc_str\<close>: \<^verbatim>\<open>str(e)\<close> of an exception;
  \<^item> \<open>sleep_fails\<close>: what \<^verbatim>\<open>time.sleep\<close> raises, if anything, on a whole number of seconds
    from 4294968 to 9223372036 (it depends on the platform and on the version of Python).
\<close>

record pylib =
  json_load :: "string \<Rightarrow> error + json"
  json_dumps :: "json \<Rightarrow> string"
  isoformat :: "datetime \<Rightarrow> string"
  fromisoformat :: "string \<Rightarrow> datetime option"
  coerce_str :: "json \<Rightarrow> string option"
  coerce_dict :: "json \<Rightarrow> (string \<times> json) list option"
  status_raises :: "nat \<Rightarrow> bool"
  exc_str :: "error \<Rightarrow> string"
  sleep_fails :: "int \<Rightarrow> error option"

section \<open>Paths and the file system\<close>

text \<open>
  A \<^verbatim>\<open>pathlib.Path\<close> is its directory part and its final component. \<^verbatim>\<open>str.rfind\<close> gives the
  last index of a character, or \<open>-1\<close>.
\<close>

record path =
  parent :: string
  name :: string

fun rfind_from :: "char \<Rightarrow> string \<Rightarrow> nat \<Rightarrow> int" where
  "rfind_from c s 0 = -1"
| "rfind_from c s (Suc n) = (if s ! n = c then int n else rfind_from c s n)"

definition rfind :: "char \<Rightarrow> string \<Rightarrow> int" where
  "rfind c s = rfind_from c s (length s)"

text \<open>
  \<^verbatim>\<open>PurePath.suffix\<close>: \<^verbatim>\<open>i = name.rfind('.')\<close>, then \<^verbatim>\<open>name[i:]\<close> when
  \<^verbatim>\<open>0 < i < len(name) - 1\<close>, and \<^verbatim>\<open>''\<close> otherwise.
\<close>

definition path_suffix :: "string \<Rightarrow> string" where
  "path_suffix nm =
     (let i = rfind (CHR ''.'') nm
      in if 0 < i \<and> i < int (length nm) - 1 then drop (nat i) nm else [])"

text \<open>
  \<^verbatim>\<open>PurePath.with_suffix(suffix)\<close>: raises \<^verbatim>\<open>ValueError\<close> on an empty name; appends the suffix
  when the name has none, and replaces the old suffix otherwise. (Its check of the new
  suffix passes for both constants the code uses, \<^verbatim>\<open>'.json.bak'\<close> and \<^verbatim>\<open>'.json.backup'\<close>.)
\<close>

definition with_suffix :: "path \<Rightarrow> string \<Rightarrow> error + path" where
  "with_suffix p sfx =
     (if name p = [] then Inl ValueError
      else let old_suffix = path_suffix (name p)
           in if old_suffix = [] then Inr (p\<lparr>name := name p @ sfx\<rparr>)
              else Inr (p\<lparr>name := take (length (name p) - length old_suffix) (name p) @ sfx\<rparr>))"

text \<open>\<^verbatim>\<open>Path(str(p) + s)\<close>, for a path with a name.\<close>

definition str_plus :: "path \<Rightarrow> string \<Rightarrow> path" where
  "str_plus p s = p\<lparr>name := name p @ s\<rparr>"

text \<open>
  The file system holds regular files only: a map from paths to bytes. \<^verbatim>\<open>Path.rename\<close>
  replaces an existing target silently on POSIX and raises \<^verbatim>\<open>FileExistsError\<close> on Windows;
  the flag \<open>posix\<close> selects the platform.
\<close>

type_synonym fs = "path \<Rightarrow> string option"

definition path_exists :: "fs \<Rightarrow> path \<Rightarrow> bool" where
  "path_exists f p = (f p \<noteq> None)"

definition rename :: "bool \<Rightarrow> fs \<Rightarrow> path \<Rightarrow> path \<Rightarrow> error + fs" where
  "rename posix f src dst =
     (case f src of
        None \<Rightarrow> Inl FileNotFoundError
      | Some c \<Rightarrow>
          if \<not> posix \<and> f dst \<noteq> None then Inl FileExistsError
          else Inr ((f(src := None))(dst \<mapsto> c)))"

definition unlink :: "fs \<Rightarrow> path \<Rightarrow> error + fs" where
  "unlink f p = (case f p of None \<Rightarrow> Inl FileNotFoundError | Some c \<Rightarrow> Inr (f(p := None)))"

text \<open>
  The write step \<^verbatim>\<open>with open(p, 'w') as f: json.dump(..., f)\<close> is decided by the environment:
  it completes, or \<^verbatim>\<open>open\<close> raises and no file is made, or \<^verbatim>\<open>json.dump\<close> raises after the
  first \<open>k\<close> bytes have reached the file (which \<^verbatim>\<open>open\<close> has created or truncated).
\<close>

datatype write_outcome = WriteOk | OpenFails | DumpFails nat

fun write_text :: "write_outcome \<Rightarrow> fs \<Rightarrow> path \<Rightarrow> string \<Rightarrow> error option \<times> fs" where
  "write_text WriteOk f p txt = (None, f(p \<mapsto> txt))"
| "write_text OpenFails f p txt = (Some OSError, f)"
| "write_text (DumpFails k) f p txt = (Some OSError, f(p \<mapsto> take k txt))"

section \<open>Messages and chat memory\<close>

record message =
  role :: string
  content :: string
  timestamp :: datetime

record chat_memory =
  messages :: "message list"
  metadata :: "(string \<times> json) list"

definition ChatMemory :: chat_memory where
  "ChatMemory = \<lparr>messages = [], metadata = []\<rparr>"

text \<open>The dictionary that \<^verbatim>\<open>_save_memory\<close> hands to \<^verbatim>\<open>json.dump\<close>.\<close>

definition dump_message :: "pylib \<Rightarrow> message \<Rightarrow> json" where
  "dump_message lib msg =
     JObj [(''role'', JStr (role msg)), (''content'', JStr (content msg)),
           (''timestamp'', JStr (isoformat lib (timestamp msg)))]"

definition dump_memory :: "pylib \<Rightarrow> chat_memory \<Rightarrow> json" where
  "dump_memory lib mem =
     JObj [(''messages'', JArr (map (dump_message lib) (messages mem))),
           (''metadata'', JObj (metadata mem))]"

section \<open>\<^verbatim>\<open>_save_memory\<close>\<close>

text \<open>
  The \<^verbatim>\<open>try\<close> block: the backup goes to \<^verbatim>\<open>memory_file.with_suffix('.json.bak')\<close>; after the
  write, the file removed is \<^verbatim>\<open>Path(str(memory_file) + '.bak')\<close>. The result is the exception
  that left the block, if any, and the file system at that point.
\<close>

definition save_try :: "pylib \<Rightarrow> bool \<Rightarrow> write_outcome \<Rightarrow> path \<Rightarrow> chat_memory \<Rightarrow> fs \<Rightarrow> error option \<times> fs" where
  "save_try lib posix wo memory_file mem f =
     (case (if path_exists f memory_file
            then (case with_suffix memory_file ''.json.bak'' of
                    Inl e \<Rightarrow> Inl e
                  | Inr backup_path \<Rightarrow> rename posix f memory_file backup_path)
            else Inr f) of
        Inl e \<Rightarrow> (Some e, f)
      | Inr f1 \<Rightarrow>
          (case write_text wo f1 memory_file (json_dumps lib (dump_memory lib mem)) of
             (Some e, f2) \<Rightarrow> (Some e, f2)
           | (None, f2) \<Rightarrow>
               if path_exists f2 (str_plus memory_file ''.bak'')
               then (case unlink f2 (str_plus memory_file ''.bak'') of
                       Inl e \<Rightarrow> (Some e, f2)
                     | Inr f3 \<Rightarrow> (None, f3))
               else (None, f2)))"

text \<open>
  The whole method: \<^verbatim>\<open>except Exception\<close> restores from \<^verbatim>\<open>Path(str(memory_file) + '.bak')\<close>
  when that file exists. An exception raised by the restoring \<^verbatim>\<open>rename\<close> leaves the method;
  it is the \<open>Some\<close> of the result.
\<close>

definition save_memory :: "pylib \<Rightarrow> bool \<Rightarrow> write_outcome \<Rightarrow> path \<Rightarrow> chat_memory \<Rightarrow> fs \<Rightarrow> error option \<times> fs" where
  "save_memory lib posix wo memory_file mem f =
     (case save_try lib posix wo memory_file mem f of
        (None, f') \<Rightarrow> (None, f')
      | (Some e, f') \<Rightarrow>
          if path_exists f' (str_plus memory_file ''.bak'')
          then (case rename posix f' (str_plus memory_file ''.bak'') memory_file of
                  Inl e' \<Rightarrow> (Some e', f')
                | Inr f'' \<Rightarrow> (None, f''))
          else (None, f'))"

text \<open>A memory file named \<^verbatim>\<open>memory.txt\<close>, holding \<^verbatim>\<open>old\<close>, alone in the file system.\<close>

definition txt_path :: path where
  "txt_path = \<lparr>parent = [], name = ''memory.txt''\<rparr>"

definition txt_fs :: fs where
  "txt_fs = (\<lambda>p. if p = txt_path then Some ''old'' else None)"

section \<open>\<^verbatim>\<open>_load_memory\<close>\<close>

text \<open>
  Python on parsed JSON. \<^verbatim>\<open>obj[key]\<close> with a string key: a \<^verbatim>\<open>dict\<close> answers or raises
  \<^verbatim>\<open>KeyError\<close> (of a repeated key the parser keeps the last value); every other JSON value
  raises \<^verbatim>\<open>TypeError\<close>. \<^verbatim>\<open>obj.get(key, default)\<close> exists on a \<^verbatim>\<open>dict\<close> only. Iteration
  (\<^verbatim>\<open>for msg in obj\<close>) runs over the elements of a list, the keys of a \<^verbatim>\<open>dict\<close> and the
  characters of a string, and raises \<^verbatim>\<open>TypeError\<close> on the rest.
\<close>

fun getitem :: "json \<Rightarrow> string \<Rightarrow> error + json" where
  "getitem (JObj kvs) k = (case map_of (rev kvs) k of None \<Rightarrow> Inl KeyError | Some v \<Rightarrow> Inr v)"
| "getitem _ k = Inl TypeError"

fun dict_get :: "json \<Rightarrow> string \<Rightarrow> json \<Rightarrow> error + json" where
  "dict_get (JObj kvs) k d = (case map_of (rev kvs) k of None \<Rightarrow> Inr d | Some v \<Rightarrow> Inr v)"
| "dict_get _ k d = Inl AttributeError"

fun iterate :: "json \<Rightarrow> error + json list" where
  "iterate (JArr xs) = Inr xs"
| "iterate (JObj kvs) = Inr (map JStr (rev (remdups (rev (map fst kvs)))))"
| "iterate (JStr s) = Inr (map (\<lambda>c. JStr [c]) s)"
| "iterate _ = Inl TypeError"

text \<open>
  Pydantic on a field declared \<^verbatim>\<open>str\<close> or \<^verbatim>\<open>Dict\<close>: a value of the declared type is taken
  as it is and \<^verbatim>\<open>None\<close> is rejected; for any other value the library decides.
\<close>

definition validate_str :: "pylib \<Rightarrow> json \<Rightarrow> string option" where
  "validate_str lib v = (case v of JStr s \<Rightarrow> Some s | JNull \<Rightarrow> None | _ \<Rightarrow> coerce_str lib v)"

definition validate_dict :: "pylib \<Rightarrow> json \<Rightarrow> (string \<times> json) list option" where
  "validate_dict lib v = (case v of JObj kvs \<Rightarrow> Some kvs | JNull \<Rightarrow> None | _ \<Rightarrow> coerce_dict lib v)"

text \<open>
  One element of the list comprehension: the three subscripts in the order written, then
  \<^verbatim>\<open>datetime.fromisoformat\<close> (\<^verbatim>\<open>TypeError\<close> on a value that is not a string, \<^verbatim>\<open>ValueError\<close> on
  a string it rejects), then the validation of \<^verbatim>\<open>Message(...)\<close>.
\<close>

definition load_message :: "pylib \<Rightarrow> json \<Rightarrow> error + message" where
  "load_message lib msg =
     (case getitem msg ''role'' of
        Inl e \<Rightarrow> Inl e
      | Inr r \<Rightarrow>
     (case getitem msg ''content'' of
        Inl e \<Rightarrow> Inl e
      | Inr c \<Rightarrow>
     (case getitem msg ''timestamp'' of
        Inl e \<Rightarrow> Inl e
      | Inr t \<Rightarrow>
     (case t of
        JStr s \<Rightarrow>
          (case fromisoformat lib s of
             None \<Rightarrow> Inl ValueError
           | Some ts \<Rightarrow>
               (case validate_str lib r of
                  None \<Rightarrow> Inl ValidationError
                | Some r' \<Rightarrow>
                    (case validate_str lib c of
                       None \<Rightarrow> Inl ValidationError
                     | Some c' \<Rightarrow> Inr \<lparr>role = r', content = c', timestamp = ts\<rparr>)))
      | _ \<Rightarrow> Inl TypeError))))"

fun load_messages :: "pylib \<Rightarrow> json list \<Rightarrow> error + message list" where
  "load_messages lib [] = Inr []"
| "load_messages lib (x # xs) =
     (case load_message lib x of
        Inl e \<Rightarrow> Inl e
      | Inr m \<Rightarrow> (case load_messages lib xs of Inl e \<Rightarrow> Inl e | Inr ms \<Rightarrow> Inr (m # ms)))"

text \<open>
  What follows \<^verbatim>\<open>data = json.load(f)\<close> inside the \<^verbatim>\<open>try\<close>: the comprehension over
  \<^verbatim>\<open>data['messages']\<close>, then \<^verbatim>\<open>ChatMemory(messages=messages, metadata=data.get('metadata', {}))\<close>.
\<close>

definition load_data :: "pylib \<Rightarrow> json \<Rightarrow> error + chat_memory" where
  "load_data lib data =
     (case getitem data ''messages'' of
        Inl e \<Rightarrow> Inl e
      | Inr ms \<Rightarrow>
     (case iterate ms of
        Inl e \<Rightarrow> Inl e
      | Inr items \<Rightarrow>
     (case load_messages lib items of
        Inl e \<Rightarrow> Inl e
      | Inr msgs \<Rightarrow>
     (case dict_get data ''metadata'' (JObj []) of
        Inl e \<Rightarrow> Inl e
      | Inr md \<Rightarrow>
          (case validate_dict lib md of
             None \<Rightarrow> Inl ValidationError
           | Some kvs \<Rightarrow> Inr \<lparr>messages = msgs, metadata = kvs\<rparr>)))))"

text \<open>The \<^verbatim>\<open>try\<close> block; \<open>None\<close> when the file does not exist and the block falls through.\<close>

definition load_try :: "pylib \<Rightarrow> path \<Rightarrow> fs \<Rightarrow> error + chat_memory option" where
  "load_try lib memory_file f =
     (case f memory_file of
        None \<Rightarrow> Inr None
      | Some bytes \<Rightarrow>
          (case json_load lib bytes of
             Inl e \<Rightarrow> Inl e
           | Inr data \<Rightarrow> (case load_data lib data of Inl e \<Rightarrow> Inl e | Inr mem \<Rightarrow> Inr (Some mem))))"

text \<open>
  The method. \<^verbatim>\<open>except json.JSONDecodeError\<close> renames the file to
  \<^verbatim>\<open>memory_file.with_suffix('.json.backup')\<close>, and what that handler raises leaves the method
  (\<open>Inl\<close>); \<^verbatim>\<open>except Exception\<close> only logs. Both fall through to \<^verbatim>\<open>return ChatMemory()\<close>.
\<close>

definition load_memory :: "pylib \<Rightarrow> bool \<Rightarrow> path \<Rightarrow> fs \<Rightarrow> (error + chat_memory) \<times> fs" where
  "load_memory lib posix memory_file f =
     (case load_try lib memory_file f of
        Inr (Some mem) \<Rightarrow> (Inr mem, f)
      | Inr None \<Rightarrow> (Inr ChatMemory, f)
      | Inl e \<Rightarrow>
          if e = JSONDecodeError
          then (if path_exists f memory_file
                then (case with_suffix memory_file ''.json.backup'' of
                        Inl e' \<Rightarrow> (Inl e', f)
                      | Inr backup_path \<Rightarrow>
                          (case rename posix f memory_file backup_path of
                             Inl e' \<Rightarrow> (Inl e', f)
                           | Inr f' \<Rightarrow> (Inr ChatMemory, f')))
                else (Inr ChatMemory, f))
          else (Inr ChatMemory, f))"

section \<open>\<^verbatim>\<open>RateLimiter\<close>\<close>

text \<open>
  The module constants, the class and its methods. \<^verbatim>\<open>datetime.now()\<close> is the argument \<open>now\<close>,
  an instant of the present, far from both ends of the range of \<^verbatim>\<open>datetime\<close>;
  \<^verbatim>\<open>timedelta(seconds=n)\<close> is \<open>n\<close> million microseconds. The \<^verbatim>\<open>while\<close> loop of
  \<^verbatim>\<open>can_make_request\<close> pops from the left while the deque is not empty and its first element
  is before the start of the window.
\<close>

definition RATE_LIMIT_REQUESTS :: int where
  "RATE_LIMIT_REQUESTS = 50"

definition RATE_LIMIT_WINDOW :: int where
  "RATE_LIMIT_WINDOW = 60"

definition RETRY_ATTEMPTS :: nat where
  "RETRY_ATTEMPTS = 3"

definition RETRY_DELAY :: int where
  "RETRY_DELAY = 2"

record rate_limiter =
  max_requests :: int
  window_size :: int
  requests :: "datetime list"

definition RateLimiter :: "int \<Rightarrow> int \<Rightarrow> rate_limiter" where
  "RateLimiter m w = \<lparr>max_requests = m, window_size = w, requests = []\<rparr>"

definition timedelta :: "int \<Rightarrow> int" where
  "timedelta secs = secs * 1000000"

definition can_make_request :: "datetime \<Rightarrow> rate_limiter \<Rightarrow> bool \<times> rate_limiter" where
  "can_make_request now rl =
     (let window_start = now - timedelta (window_size rl);
          rs = dropWhile (\<lambda>t. t < window_start) (requests rl)
      in (int (length rs) < max_requests rl, rl\<lparr>requests := rs\<rparr>))"

definition add_request :: "datetime \<Rightarrow> rate_limiter \<Rightarrow> rate_limiter" where
  "add_request now rl = rl\<lparr>requests := requests rl @ [now]\<rparr>"

section \<open>The session state\<close>

text \<open>
  What a \<^verbatim>\<open>PersistentChat\<close> owns and touches: its memory, its rate limiter, the file system
  and the clock. Time passes in \<^verbatim>\<open>time.sleep\<close> only. Two fields observe the run without
  taking part in it: \<open>calls\<close> counts the requests handed to the client so far, and \<open>trace\<close>
  lists, in order, each \<^verbatim>\<open>sleep(1)\<close> of the limiter, each return of \<^verbatim>\<open>wait_for_capacity\<close>,
  each request with the messages it carries, each \<^verbatim>\<open>add_request\<close>, and the two other sleeps
  by the place that made them.
\<close>

type_synonym prompt = "(string \<times> string) list"

datatype event =
    Tick
  | Waited
  | Posted prompt
  | Recorded
  | RetryAfterSleep int
  | BackoffSleep int

record state =
  memory :: chat_memory
  limiter :: rate_limiter
  files :: fs
  clock :: datetime
  calls :: nat
  trace :: "event list"

definition sleep :: "int \<Rightarrow> state \<Rightarrow> state" where
  "sleep secs st = st\<lparr>clock := clock st + timedelta secs\<rparr>"

definition emit :: "event list \<Rightarrow> state \<Rightarrow> state" where
  "emit evs st = st\<lparr>trace := trace st @ evs\<rparr>"

text \<open>
  What \<^verbatim>\<open>time.sleep(secs)\<close> raises on an \<^verbatim>\<open>int\<close>, if anything. The length is first converted to a
  64-bit count of nanoseconds, an \<^verbatim>\<open>OverflowError\<close> when it does not fit; a negative length is
  then a \<^verbatim>\<open>ValueError\<close>. Up to 4294967 seconds every platform sleeps; beyond, some refuse the
  length.
\<close>

definition sleep_error :: "pylib \<Rightarrow> int \<Rightarrow> error option" where
  "sleep_error lib secs =
     (if secs < - 9223372036 \<or> 9223372036 < secs then Some OverflowError
      else if secs < 0 then Some ValueError
      else if secs \<le> 4294967 then None
      else sleep_fails lib secs)"

text \<open>
  Handing a request with the messages \<open>msgs\<close> to the client, after \<^verbatim>\<open>wait_for_capacity\<close> has
  returned; and \<^verbatim>\<open>self.rate_limiter.add_request()\<close>.
\<close>

definition posted :: "prompt \<Rightarrow> state \<Rightarrow> state" where
  "posted msgs st = emit [Waited, Posted msgs] (st\<lparr>calls := calls st + 1\<rparr>)"

definition recorded :: "state \<Rightarrow> state" where
  "recorded st = emit [Recorded] (st\<lparr>limiter := add_request (clock st) (limiter st)\<rparr>)"

text \<open>
  \<^verbatim>\<open>wait_for_capacity\<close>: \<^verbatim>\<open>while not self.can_make_request(): time.sleep(1)\<close>. The loop need not
  end (it never does when \<^verbatim>\<open>max_requests\<close> is 0), so the result is optional.
\<close>

partial_function (option) wait_for_capacity :: "state \<Rightarrow> state option" where
  "wait_for_capacity st =
     (if fst (can_make_request (clock st) (limiter st))
      then Some (st\<lparr>limiter := snd (can_make_request (clock st) (limiter st))\<rparr>)
      else wait_for_capacity
             (emit [Tick] (sleep 1 (st\<lparr>limiter := snd (can_make_request (clock st) (limiter st))\<rparr>))))"

section \<open>\<^verbatim>\<open>_make_api_request\<close>\<close>

text \<open>
  One pass through the body of \<^verbatim>\<open>for attempt in range(RETRY_ATTEMPTS)\<close> ends in a \<^verbatim>\<open>return\<close>,
  a \<^verbatim>\<open>raise\<close> or a \<^verbatim>\<open>continue\<close>. When the range is used up the function falls off its end and
  returns \<^verbatim>\<open>None\<close>. The value returned is the content of the completion, which the code does
  not look at: a \<^verbatim>\<open>str\<close> is \<open>JStr\<close>, \<^verbatim>\<open>None\<close> is \<open>JNull\<close>.
\<close>

datatype outcome = Return json | Raise error | Continue

fun run_attempts ::
  "(nat \<Rightarrow> state \<Rightarrow> (outcome \<times> state) option) \<Rightarrow> nat list \<Rightarrow> state
     \<Rightarrow> ((error + json) \<times> state) option" where
  "run_attempts body [] st = Some (Inr JNull, st)"
| "run_attempts body (attempt # rest) st =
     (case body attempt st of
        None \<Rightarrow> None
      | Some (Continue, st') \<Rightarrow> run_attempts body rest st'
      | Some (Return r, st') \<Rightarrow> Some (Inr r, st')
      | Some (Raise e, st') \<Rightarrow> Some (Inl e, st'))"

text \<open>
  The body of the \<^verbatim>\<open>except\<close> clauses. In the httpx variant the three clauses differ in the
  log line only: sleep \<^verbatim>\<open>RETRY_DELAY * (attempt + 1)\<close> and \<^verbatim>\<open>continue\<close> while
  \<^verbatim>\<open>attempt < RETRY_ATTEMPTS - 1\<close>, else re-raise. The OpenAI variant has one clause, which
  raises a new \<^verbatim>\<open>ValueError\<close> at the end. These sleeps last 2 or 4 seconds, which
  \<^verbatim>\<open>time.sleep\<close> accepts.
\<close>

definition retry_or_raise :: "error \<Rightarrow> nat \<Rightarrow> state \<Rightarrow> outcome \<times> state" where
  "retry_or_raise e attempt st =
     (if attempt < RETRY_ATTEMPTS - 1
      then (Continue,
            emit [BackoffSleep (RETRY_DELAY * (int attempt + 1))]
              (sleep (RETRY_DELAY * (int attempt + 1)) st))
      else (Raise e, st))"

text \<open>
  What the httpx client answers to one \<^verbatim>\<open>post\<close>: it raises \<^verbatim>\<open>httpx.ReadTimeout\<close>, or some other
  exception, or returns a response. Of a response the code reads the status code, the
  \<^verbatim>\<open>Retry-After\<close> header (absent, a text that \<^verbatim>\<open>int()\<close> accepts, or one it rejects) and the
  outcome of \<^verbatim>\<open>response.json()['choices'][0]['message']['content']\<close>: the value found there,
  which is a string in a well-formed answer but may be \<^verbatim>\<open>null\<close> or any other JSON value, or an
  exception (the body is not JSON, or a key or index is missing).
\<close>

datatype retry_after = HeaderAbsent | HeaderInt int | HeaderOther

datatype body = Completion json | Malformed error

datatype post_result = PostTimeout | PostError | Response nat retry_after body

definition raise_for_status :: "pylib \<Rightarrow> nat \<Rightarrow> bool" where
  "raise_for_status lib code =
     (if 400 \<le> code \<and> code \<le> 599 then True
      else if 200 \<le> code \<and> code \<le> 299 then False
      else status_raises lib code)"

text \<open>
  The \<^verbatim>\<open>try\<close> block of the httpx variant, after the post has returned a response:
  \<^verbatim>\<open>add_request\<close>; on 429 \<^verbatim>\<open>int(headers.get('Retry-After', RETRY_DELAY))\<close> (a \<^verbatim>\<open>ValueError\<close> on
  a text that is no integer), \<^verbatim>\<open>time.sleep\<close> (which raises on a length it refuses, and the
  exception goes to the \<^verbatim>\<open>except\<close> clauses like any other) and \<^verbatim>\<open>continue\<close>; else
  \<^verbatim>\<open>raise_for_status\<close>, then the content of the completion, returned as it is.
\<close>

definition on_response :: "pylib \<Rightarrow> nat \<Rightarrow> nat \<Rightarrow> retry_after \<Rightarrow> body \<Rightarrow> state \<Rightarrow> outcome \<times> state" where
  "on_response lib attempt code ra b st =
     (let st1 = recorded st
      in if code = 429
         then (case (case ra of HeaderAbsent \<Rightarrow> Some RETRY_DELAY
                              | HeaderInt n \<Rightarrow> Some n
                              | HeaderOther \<Rightarrow> None) of
                 None \<Rightarrow> retry_or_raise ValueError attempt st1
               | Some wait_time \<Rightarrow>
                   (case sleep_error lib wait_time of
                      Some e \<Rightarrow> retry_or_raise e attempt st1
                    | None \<Rightarrow> (Continue, emit [RetryAfterSleep wait_time] (sleep wait_time st1))))
         else if raise_for_status lib code
         then retry_or_raise (HTTPStatusError code) attempt st1
         else (case b of
                 Malformed e \<Rightarrow> retry_or_raise e attempt st1
               | Completion v \<Rightarrow> (Return v, st1)))"

text \<open>
  One pass of the httpx variant: \<^verbatim>\<open>wait_for_capacity\<close>, the post (the \<open>n\<close>-th request of the
  session gets the answer \<open>transport n\<close>), and the rest.
\<close>

definition attempt_httpx ::
  "pylib \<Rightarrow> (nat \<Rightarrow> post_result) \<Rightarrow> prompt \<Rightarrow> nat \<Rightarrow> state \<Rightarrow> (outcome \<times> state) option" where
  "attempt_httpx lib transport msgs attempt st =
     (case wait_for_capacity st of
        None \<Rightarrow> None
      | Some st1 \<Rightarrow>
          (let st2 = posted msgs st1
           in Some (case transport (calls st1) of
                      PostTimeout \<Rightarrow> retry_or_raise ReadTimeout attempt st2
                    | PostError \<Rightarrow> retry_or_raise TransportError attempt st2
                    | Response code ra b \<Rightarrow> on_response lib attempt code ra b st2)))"

definition make_api_request_httpx ::
  "pylib \<Rightarrow> (nat \<Rightarrow> post_result) \<Rightarrow> prompt \<Rightarrow> state \<Rightarrow> ((error + json) \<times> state) option" where
  "make_api_request_httpx lib transport msgs st =
     run_attempts (attempt_httpx lib transport msgs) [0..<RETRY_ATTEMPTS] st"

text \<open>
  The OpenAI variant: \<^verbatim>\<open>client.chat.completions.create\<close> raises (also on a 429, which the
  client turns into an exception) or returns a completion, whose
  \<^verbatim>\<open>choices[0].message.content\<close> the client declares as a string or \<^verbatim>\<open>None\<close>, or cannot be
  read. One call of \<^verbatim>\<open>create\<close> is one event \<open>Posted\<close>, whatever number of HTTP requests the
  client makes for it: it retries by itself, out of sight of this code.
\<close>

datatype create_result = CreateRaises error | Created "string option" | CreatedUnreadable error

definition attempt_openai ::
  "(nat \<Rightarrow> create_result) \<Rightarrow> prompt \<Rightarrow> nat \<Rightarrow> state \<Rightarrow> (outcome \<times> state) option" where
  "attempt_openai transport msgs attempt st =
     (case wait_for_capacity st of
        None \<Rightarrow> None
      | Some st1 \<Rightarrow>
          (let st2 = posted msgs st1;
               st3 = recorded st2
           in Some (case transport (calls st1) of
                      CreateRaises e \<Rightarrow> retry_or_raise ValueError attempt st2
                    | Created c \<Rightarrow>
                        (Return (case c of None \<Rightarrow> JNull | Some text \<Rightarrow> JStr text), st3)
                    | CreatedUnreadable e \<Rightarrow> retry_or_raise ValueError attempt st3)))"

definition make_api_request_openai ::
  "(nat \<Rightarrow> create_result) \<Rightarrow> prompt \<Rightarrow> state \<Rightarrow> ((error + json) \<times> state) option" where
  "make_api_request_openai transport msgs st =
     run_attempts (attempt_openai transport msgs) [0..<RETRY_ATTEMPTS] st"

section \<open>\<^verbatim>\<open>chat\<close>\<close>

text \<open>
  \<^verbatim>\<open>str.strip()\<close> removes the leading and trailing characters that \<^verbatim>\<open>str.isspace\<close> accepts;
  below 256 these are the code points 9 to 13, 28 to 32, 133 and 160.
\<close>

definition isspace :: "char \<Rightarrow> bool" where
  "isspace c = (of_char c \<in> {9, 10, 11, 12, 13, 28, 29, 30, 31, 32, 133, 160 :: nat})"

definition strip :: "string \<Rightarrow> string" where
  "strip s = rev (dropWhile isspace (rev (dropWhile isspace s)))"

definition append_message :: "message \<Rightarrow> state \<Rightarrow> state" where
  "append_message m st = st\<lparr>memory := (memory st)\<lparr>messages := messages (memory st) @ [m]\<rparr>\<rparr>"

text \<open>
  The end of \<^verbatim>\<open>chat\<close>, the same in both variants, given what \<^verbatim>\<open>_make_api_request\<close> did. An
  exception goes to \<^verbatim>\<open>except Exception\<close>, which returns \<^verbatim>\<open>f"Error: {str(e)}"\<close>. Otherwise the
  user message is appended (its timestamp is \<^verbatim>\<open>datetime.now()\<close>), then the assistant message
  is built, and pydantic rejects \<^verbatim>\<open>content=None\<close> with a \<^verbatim>\<open>ValidationError\<close>; then it is
  appended, \<^verbatim>\<open>_save_memory\<close> runs, and \<^verbatim>\<open>assistant_message\<close> is returned as
  \<^verbatim>\<open>_make_api_request\<close> gave it. What \<^verbatim>\<open>chat\<close> returns is a \<^verbatim>\<open>str\<close>, here \<open>JStr\<close>, unless the
  content of the completion was something else.
\<close>

definition chat_after_request ::
  "pylib \<Rightarrow> bool \<Rightarrow> write_outcome \<Rightarrow> path \<Rightarrow> string \<Rightarrow> (error + json) \<Rightarrow> state
     \<Rightarrow> json \<times> state" where
  "chat_after_request lib posix wo memory_file message r st =
     (case r of
        Inl e \<Rightarrow> (JStr (''Error: '' @ exc_str lib e), st)
      | Inr assistant_message \<Rightarrow>
          (let st1 = append_message \<lparr>role = ''user'', content = message, timestamp = clock st\<rparr> st
           in case validate_str lib assistant_message of
                None \<Rightarrow> (JStr (''Error: '' @ exc_str lib ValidationError), st1)
              | Some text \<Rightarrow>
                  (let st2 = append_message
                               \<lparr>role = ''assistant'', content = text, timestamp = clock st1\<rparr> st1
                   in case save_memory lib posix wo memory_file (memory st2) (files st2) of
                        (Some e, f') \<Rightarrow> (JStr (''Error: '' @ exc_str lib e), st2\<lparr>files := f'\<rparr>)
                      | (None, f') \<Rightarrow> (assistant_message, st2\<lparr>files := f'\<rparr>))))"

text \<open>The httpx variant: the prompt is the stored messages and the new user message.\<close>

definition chat_httpx ::
  "pylib \<Rightarrow> bool \<Rightarrow> write_outcome \<Rightarrow> path \<Rightarrow> (nat \<Rightarrow> post_result) \<Rightarrow> string \<Rightarrow> state
     \<Rightarrow> (json \<times> state) option" where
  "chat_httpx lib posix wo memory_file transport message st =
     (if message = [] \<or> strip message = [] then Some (JStr ''Message cannot be empty'', st)
      else case make_api_request_httpx lib transport
                  (map (\<lambda>msg. (role msg, content msg)) (messages (memory st))
                   @ [(''user'', message)]) st of
             None \<Rightarrow> None
           | Some (r, st') \<Rightarrow> Some (chat_after_request lib posix wo memory_file message r st'))"

text \<open>
  The OpenAI variant: the prompt starts with the system message \<^verbatim>\<open>SYSTEM_MESSAGE\<close> (a module
  global, here a parameter) and skips the stored messages whose role is \<^verbatim>\<open>system\<close>.
\<close>

definition chat_openai ::
  "pylib \<Rightarrow> bool \<Rightarrow> write_outcome \<Rightarrow> path \<Rightarrow> string \<Rightarrow> (nat \<Rightarrow> create_result) \<Rightarrow> string \<Rightarrow> state
     \<Rightarrow> (json \<times> state) option" where
  "chat_openai lib posix wo memory_file SYSTEM_MESSAGE transport message st =
     (if message = [] \<or> strip message = [] then Some (JStr ''Message cannot be empty'', st)
      else case make_api_request_openai transport
                  ([(''system'', SYSTEM_MESSAGE)]
                   @ map (\<lambda>msg. (role msg, content msg))
                       (filter (\<lambda>msg. role msg \<noteq> ''system'') (messages (memory st)))
                   @ [(''user'', message)]) st of
             None \<Rightarrow> None
           | Some (r, st') \<Rightarrow> Some (chat_after_request lib posix wo memory_file message r st'))"

text \<open>
  \<^verbatim>\<open>PersistentChat.__init__\<close>: the memory is loaded and the limiter made from the module
  constants. The state is \<open>None\<close> when \<^verbatim>\<open>_load_memory\<close> raises.
\<close>

definition init :: "pylib \<Rightarrow> bool \<Rightarrow> path \<Rightarrow> fs \<Rightarrow> datetime \<Rightarrow> error + state" where
  "init lib posix memory_file f now =
     (case load_memory lib posix memory_file f of
        (Inl e, f') \<Rightarrow> Inl e
      | (Inr mem, f') \<Rightarrow>
          Inr \<lparr>memory = mem, limiter = RateLimiter RATE_LIMIT_REQUESTS RATE_LIMIT_WINDOW,
               files = f', clock = now, calls = 0, trace = []\<rparr>)"

section \<open>Observations on a run\<close>

text \<open>
  \<open>extends msgs st st'\<close>: from \<open>st\<close> to \<open>st'\<close> the memory, the files and the configuration
  of the limiter are unchanged, the trace has grown at its end, and every request made in
  between carried the messages \<open>msgs\<close>.
\<close>

definition extends :: "prompt \<Rightarrow> state \<Rightarrow> state \<Rightarrow> bool" where
  "extends msgs st st' =
     (memory st' = memory st \<and> files st' = files st
      \<and> max_requests (limiter st') = max_requests (limiter st)
      \<and> window_size (limiter st') = window_size (limiter st)
      \<and> (\<exists>evs. trace st' = trace st @ evs \<and> (\<forall>p. Posted p \<in> set evs \<longrightarrow> p = msgs)))"

text \<open>What a run returned, how many requests it made, and its trace.\<close>

definition summary :: "('a \<times> state) option \<Rightarrow> ('a \<times> nat \<times> event list) option" where
  "summary r = map_option (\<lambda>(x, st). (x, calls st, trace st)) r"

definition window :: "('a \<times> state) option \<Rightarrow> datetime list option" where
  "window r = map_option (\<lambda>(x, st). requests (limiter st)) r"

definition remembered :: "('a \<times> state) option \<Rightarrow> ('a \<times> message list) option" where
  "remembered r = map_option (\<lambda>(x, st). (x, messages (memory st))) r"

section \<open>Example data\<close>

text \<open>
  The default memory file \<^verbatim>\<open>chat_memory.json\<close> and its quarantine file, a memory of one
  message, and the text that \<^verbatim>\<open>_save_memory\<close> writes for it.
\<close>

definition ex_path :: path where
  "ex_path = \<lparr>parent = [], name = ''chat_memory.json''\<rparr>"

definition ex_backup :: path where
  "ex_backup = \<lparr>parent = [], name = ''chat_memory.json.backup''\<rparr>"

definition hello_memory :: chat_memory where
  "hello_memory =
     \<lparr>messages = [\<lparr>role = ''user'', content = ''Hello'', timestamp = 0\<rparr>], metadata = []\<rparr>"

definition hello_doc :: json where
  "hello_doc =
     JObj [(''messages'',
            JArr [JObj [(''role'', JStr ''user''), (''content'', JStr ''Hello''),
                        (''timestamp'', JStr ''0001-01-01T00:00:00'')]]),
           (''metadata'', JObj [])]"

definition hello_text :: string where
  \<open>hello_text =
     ''{\<newline>  "messages": [\<newline>    {\<newline>      "role": "user",\<newline>      "content": "Hello",\<newline>      "timestamp": "0001-01-01T00:00:00"\<newline>    }\<newline>  ],\<newline>  "metadata": {}\<newline>}''\<close>

text \<open>Two files that are JSON of the wrong shape, and two that are not JSON.\<close>

definition no_messages_text :: string where
  \<open>no_messages_text = ''{"metadata": {}}''\<close>

definition bad_timestamp_text :: string where
  \<open>bad_timestamp_text =
     ''{"messages": [{"role": "user", "content": "Hello", "timestamp": "yesterday"}]}''\<close>

definition bad_timestamp_doc :: json where
  "bad_timestamp_doc =
     JObj [(''messages'',
            JArr [JObj [(''role'', JStr ''user''), (''content'', JStr ''Hello''),
                        (''timestamp'', JStr ''yesterday'')]])]"

definition truncated_text :: string where
  \<open>truncated_text = ''{"messages": [''\<close>

definition not_utf8_bytes :: string where
  "not_utf8_bytes = [CHR 0xFF]"

text \<open>
  A table of what the libraries answer on these values (and an arbitrary answer elsewhere),
  for evaluating the model at concrete inputs.
\<close>

definition ex_lib :: pylib where
  "ex_lib =
     \<lparr>json_load = (\<lambda>s. if s = hello_text then Inr hello_doc
                         else if s = no_messages_text then Inr (JObj [(''metadata'', JObj [])])
                         else if s = bad_timestamp_text then Inr bad_timestamp_doc
                         else if s = not_utf8_bytes then Inl UnicodeDecodeError
                         else Inl JSONDecodeError),
      json_dumps = (\<lambda>j. if j = hello_doc then hello_text else ''null''),
      isoformat = (\<lambda>t. if t = 0 then ''0001-01-01T00:00:00'' else ''0001-01-01T00:00:01''),
      fromisoformat = (\<lambda>s. if s = ''0001-01-01T00:00:00'' then Some 0
                            else if s = ''0001-01-01T00:00:01'' then Some 1000000
                            else None),
      coerce_str = (\<lambda>v. None),
      coerce_dict = (\<lambda>v. None),
      status_raises = (\<lambda>code. True),
      exc_str = (\<lambda>e. ''failure''),
      sleep_fails = (\<lambda>secs. None)\<rparr>"

definition fs_of :: "(path \<times> string) list \<Rightarrow> fs" where
  "fs_of kvs = map_of kvs"

definition quarantine_fs :: fs where
  "quarantine_fs = fs_of [(ex_path, truncated_text), (ex_backup, ''first'')]"


text \<open>
  The instant 2000-01-01T00:00:00, in microseconds since 0001-01-01T00:00:00 (730119 days);
  fifty instants one second apart from then on; a session that has just started at that
  instant, with no memory file; a session whose memory holds a stored system message; and
  scripts for the client: the \<open>n\<close>-th request gets the \<open>n\<close>-th answer of the list, and the
  last one from then on.
\<close>

definition start_instant :: datetime where
  "start_instant = 63082281600000000"

definition fifty_instants :: "datetime list" where
  "fifty_instants = map (\<lambda>i. start_instant + int i * 1000000) [0..<50]"

definition fresh_state :: state where
  "fresh_state =
     \<lparr>memory = ChatMemory, limiter = RateLimiter RATE_LIMIT_REQUESTS RATE_LIMIT_WINDOW,
      files = fs_of [], clock = start_instant, calls = 0, trace = []\<rparr>"

definition briefed_state :: state where
  "briefed_state =
     fresh_state\<lparr>memory := \<lparr>messages = [\<lparr>role = ''system'', content = ''Be brief'', timestamp = 0\<rparr>],
                             metadata = []\<rparr>\<rparr>"

definition briefed_prompt :: prompt where
  "briefed_prompt = [(''system'', ''P''), (''user'', ''Hello'')]"

definition script :: "'a list \<Rightarrow> 'a \<Rightarrow> nat \<Rightarrow> 'a" where
  "script xs d n = (if n < length xs then xs ! n else d)"

definition hello_prompt :: prompt where
  "hello_prompt = [(''user'', ''Hello'')]"

definition ok_response :: post_result where
  "ok_response = Response 200 HeaderAbsent (Completion (JStr ''Hi''))"

definition limited_then_ok :: "nat \<Rightarrow> post_result" where
  "limited_then_ok = script [Response 429 (HeaderInt 7) (Malformed KeyError)] ok_response"

definition limited_then_two_errors :: "nat \<Rightarrow> post_result" where
  "limited_then_two_errors =
     script [Response 429 (HeaderInt 7) (Malformed KeyError),
             Response 500 HeaderAbsent (Malformed KeyError),
             Response 500 HeaderAbsent (Malformed KeyError)] ok_response"

definition not_found_then_ok :: "nat \<Rightarrow> post_result" where
  "not_found_then_ok = script [Response 404 HeaderAbsent (Malformed KeyError)] ok_response"

definition always_limited :: "nat \<Rightarrow> post_result" where
  "always_limited = script [] (Response 429 HeaderAbsent (Malformed KeyError))"

definition always_timeout :: "nat \<Rightarrow> post_result" where
  "always_timeout = script [] PostTimeout"

definition always_ok :: "nat \<Rightarrow> post_result" where
  "always_ok = script [] ok_response"

definition always_created :: "nat \<Rightarrow> create_result" where
  "always_created = script [] (Created (Some ''Hi''))"

text \<open>
  A 429 that asks for a wait of ten thousand million seconds, and a 200 whose completion has
  \<^verbatim>\<open>null\<close> for content.
\<close>

definition long_wait_then_ok :: "nat \<Rightarrow> post_result" where
  "long_wait_then_ok =
     script [Response 429 (HeaderInt 10000000000) (Malformed KeyError)] ok_response"

definition null_content :: "nat \<Rightarrow> post_result" where
  "null_content = script [] (Response 200 HeaderAbsent (Completion JNull))"

chapter \<open>Theorems\<close>

section \<open>\<^verbatim>\<open>_save_memory\<close>: the backup file\<close>

lemma with_suffix_txt_path:
  "with_suffix \<lparr>parent = [], name = ''memory.txt''\<rparr> ''.json.bak''
     = Inr \<lparr>parent = [], name = ''memory.json.bak''\<rparr>"
  by (simp add: with_suffix_def path_suffix_def rfind_def Let_def)

text \<open>
  C1 (save rollback, for every memory file path). With the memory file \<^verbatim>\<open>memory.txt\<close> the
  backup is renamed to \<^verbatim>\<open>memory.json.bak\<close>, while the restore and the clean-up look for
  \<^verbatim>\<open>memory.txt.bak\<close>. When \<^verbatim>\<open>open\<close> fails, \<^verbatim>\<open>_save_memory\<close> returns with no file at the
  target path and the old bytes left in \<^verbatim>\<open>memory.json.bak\<close>; when the write succeeds, the
  method returns normally and \<^verbatim>\<open>memory.json.bak\<close> is still there. Both hold on either
  platform, for every library and every memory.
\<close>

theorem save_memory_txt_backup_stranded:
  "snd (save_memory lib posix OpenFails txt_path mem txt_fs) txt_path = None
   \<and> snd (save_memory lib posix OpenFails txt_path mem txt_fs)
         \<lparr>parent = [], name = ''memory.json.bak''\<rparr> = Some ''old''
   \<and> fst (save_memory lib posix WriteOk txt_path mem txt_fs) = None
   \<and> snd (save_memory lib posix WriteOk txt_path mem txt_fs)
         \<lparr>parent = [], name = ''memory.json.bak''\<rparr> = Some ''old''"
  by (simp add: save_memory_def save_try_def with_suffix_txt_path path_exists_def rename_def
      txt_fs_def txt_path_def str_plus_def)

text \<open>
  Where the claim does hold. When the suffix of the file name is \<^verbatim>\<open>.json\<close>, as in the default
  \<^verbatim>\<open>chat_memory.json\<close>, both computations give the same backup path. A failed write is then
  rolled back and a successful one leaves no \<^verbatim>\<open>.bak\<close> file, provided the first rename can
  succeed, and, for a write that fails after \<^verbatim>\<open>open\<close>, on POSIX. On Windows the restoring
  rename meets the partly written file and raises out of \<^verbatim>\<open>_save_memory\<close>.
\<close>

lemma with_suffix_json:
  assumes "path_suffix (name p) = ''.json''"
  shows "with_suffix p ''.json.bak'' = Inr (str_plus p ''.bak'')"
proof -
  define i where "i = rfind (CHR ''.'') (name p)"
  from assms have i: "0 < i" "i < int (length (name p)) - 1"
    and d: "drop (nat i) (name p) = ''.json''"
    by (auto simp: path_suffix_def Let_def i_def split: if_splits)
  have l1: "length (drop (nat i) (name p)) = 5"
    by (simp only: d) simp
  then have l: "length (name p) - 5 = nat i"
    using i by simp
  have "take (nat i) (name p) @ ''.json'' = name p"
    using d by (metis append_take_drop_id)
  then have "take (nat i) (name p) @ ''.json'' @ ''.bak'' = name p @ ''.bak''"
    by (simp only: append_assoc[symmetric])
  then have e: "take (nat i) (name p) @ ''.json.bak'' = name p @ ''.bak''"
    by simp
  have l2: "length (name p) - Suc (Suc (Suc (Suc (Suc 0)))) = nat i"
    using l by simp
  have "name p \<noteq> []"
    using i by auto
  then show ?thesis
    using assms by (simp add: with_suffix_def str_plus_def Let_def l2 e)
qed

lemma str_plus_differs: "str_plus p ''.bak'' \<noteq> p"
  by (auto simp: str_plus_def dest: arg_cong[where f = name])

lemma save_memory_json_rollback:
  assumes "path_suffix (name memory_file) = ''.json''"
    and "f memory_file = Some old"
    and "posix \<or> f (str_plus memory_file ''.bak'') = None"
    and "wo = OpenFails \<or> (\<exists>k. wo = DumpFails k) \<and> posix"
  shows "fst (save_memory lib posix wo memory_file mem f) = None"
    and "snd (save_memory lib posix wo memory_file mem f) memory_file = Some old"
    and "snd (save_memory lib posix wo memory_file mem f) (str_plus memory_file ''.bak'') = None"
  using assms str_plus_differs[of memory_file]
  by (auto simp: save_memory_def save_try_def with_suffix_json path_exists_def rename_def)

lemma save_memory_json_success:
  assumes "path_suffix (name memory_file) = ''.json''"
    and "f memory_file = Some old"
    and "posix \<or> f (str_plus memory_file ''.bak'') = None"
  shows "fst (save_memory lib posix WriteOk memory_file mem f) = None"
    and "snd (save_memory lib posix WriteOk memory_file mem f) memory_file
           = Some (json_dumps lib (dump_memory lib mem))"
    and "snd (save_memory lib posix WriteOk memory_file mem f) (str_plus memory_file ''.bak'') = None"
  using assms str_plus_differs[of memory_file]
  by (auto simp: save_memory_def save_try_def with_suffix_json path_exists_def rename_def
      unlink_def)

lemma save_memory_windows_partial_write:
  "fst (save_memory lib False (DumpFails k) ex_path mem (fs_of [(ex_path, ''old'')]))
     = Some FileExistsError
   \<and> snd (save_memory lib False (DumpFails k) ex_path mem (fs_of [(ex_path, ''old'')])) ex_path
     = Some (take k (json_dumps lib (dump_memory lib mem)))"
proof -
  have s: "path_suffix (name ex_path) = ''.json''"
    by (simp add: path_suffix_def rfind_def ex_path_def Let_def)
  show ?thesis
    using str_plus_differs[of ex_path]
    by (auto simp: save_memory_def save_try_def with_suffix_json[OF s] path_exists_def rename_def
        fs_of_def)
qed

section \<open>\<^verbatim>\<open>_load_memory\<close>: files that do not load\<close>








lemma load_data_no_messages_key:
  "map_of (rev kvs) ''messages'' = None \<Longrightarrow> load_data lib (JObj kvs) = Inl KeyError"
  by (simp add: load_data_def)

lemma load_message_missing_key:
  assumes "k \<in> {''role'', ''content'', ''timestamp''}" and "map_of (rev kvs) k = None"
  shows "load_message lib (JObj kvs) = Inl KeyError"
  using assms by (auto simp: load_message_def split: option.splits)

lemma load_message_bad_timestamp:
  assumes "getitem msg ''role'' = Inr r" and "getitem msg ''content'' = Inr c"
    and "getitem msg ''timestamp'' = Inr (JStr s)" and "fromisoformat lib s = None"
  shows "load_message lib msg = Inl ValueError"
  using assms by (simp add: load_message_def)

lemma load_messages_entry_fails:
  "x \<in> set xs \<Longrightarrow> load_message lib x = Inl e \<Longrightarrow> \<exists>e'. load_messages lib xs = Inl e'"
  by (induction xs) (auto split: sum.splits)

lemma load_data_entry_fails:
  assumes "getitem data ''messages'' = Inr (JArr xs)" and "x \<in> set xs"
    and "load_message lib x = Inl e"
  shows "\<exists>e'. load_data lib data = Inl e'"
  using load_messages_entry_fails[OF assms(2,3)] assms(1)
  by (auto simp: load_data_def)





lemma ex_with_suffix_backup: "with_suffix ex_path ''.json.backup'' = Inr ex_backup"
  by (simp add: with_suffix_def path_suffix_def rfind_def Let_def ex_path_def ex_backup_def)




text \<open>On Windows the same state keeps \<^verbatim>\<open>PersistentChat()\<close> from being constructed.\<close>

lemma init_fails_on_windows:
  "init ex_lib False ex_path quarantine_fs 0 = Inl FileExistsError"
proof -
  have ne: "ex_path \<noteq> ex_backup"
    by (simp add: ex_path_def ex_backup_def)
  have q1: "quarantine_fs ex_path = Some truncated_text"
    and q2: "quarantine_fs ex_backup = Some ''first''"
    using ne by (simp_all add: quarantine_fs_def fs_of_def)
  have j: "json_load ex_lib truncated_text = Inl JSONDecodeError"
    by (simp add: ex_lib_def truncated_text_def hello_text_def no_messages_text_def
        bad_timestamp_text_def not_utf8_bytes_def)
  have t: "load_try ex_lib ex_path quarantine_fs = Inl JSONDecodeError"
    by (simp add: load_try_def q1 j)
  show ?thesis
    by (simp add: init_def load_memory_def t path_exists_def ex_with_suffix_backup rename_def q1 q2)
qed

section \<open>Saving, then loading\<close>

lemma load_messages_dump:
  "\<forall>m \<in> set ms. fromisoformat lib (isoformat lib (timestamp m)) = Some (timestamp m) \<Longrightarrow>
   load_messages lib (map (dump_message lib) ms) = Inr ms"
  by (induction ms) (simp_all add: load_message_def dump_message_def validate_str_def)

lemma load_data_dump:
  assumes "\<forall>m \<in> set (messages mem). fromisoformat lib (isoformat lib (timestamp m)) = Some (timestamp m)"
  shows "load_data lib (dump_memory lib mem) = Inr mem"
  using load_messages_dump[OF assms]
  by (simp add: load_data_def dump_memory_def validate_dict_def)

lemma save_try_success:
  assumes "save_try lib posix wo memory_file mem f = (None, f')"
  shows "f' memory_file = Some (json_dumps lib (dump_memory lib mem))"
proof -
  have ne: "str_plus memory_file ''.bak'' \<noteq> memory_file"
    by (auto simp: str_plus_def dest: arg_cong[where f=name])
  show ?thesis
    using assms ne
    by (cases wo)
       (auto simp: save_try_def path_exists_def unlink_def
             split: sum.splits if_splits option.splits prod.splits)
qed

text \<open>
  C5 (persistence round trip). Let the \<^verbatim>\<open>try\<close> block of \<^verbatim>\<open>_save_memory\<close> complete without an
  exception. If \<^verbatim>\<open>json.load\<close> reads back the document that \<^verbatim>\<open>json.dump\<close> wrote, and
  \<^verbatim>\<open>fromisoformat\<close> inverts \<^verbatim>\<open>isoformat\<close> on the timestamps of the memory, then
  \<^verbatim>\<open>_load_memory\<close> on the resulting file system returns the saved memory: the same messages
  in the same order, each with its role, content and timestamp (and the same metadata).
\<close>

theorem save_then_load_roundtrip:
  assumes "json_load lib (json_dumps lib (dump_memory lib mem)) = Inr (dump_memory lib mem)"
    and "\<forall>m \<in> set (messages mem). fromisoformat lib (isoformat lib (timestamp m)) = Some (timestamp m)"
    and "save_try lib posix wo memory_file mem f = (None, f')"
  shows "save_memory lib posix wo memory_file mem f = (None, f')
         \<and> load_memory lib posix memory_file f' = (Inr mem, f')"
proof -
  have "load_try lib memory_file f' = Inr (Some mem)"
    using save_try_success[OF assms(3)] assms(1) load_data_dump[OF assms(2)]
    by (simp add: load_try_def)
  then show ?thesis
    using assms(3) by (simp add: load_memory_def save_memory_def)
qed


lemma ex_lib_hello_dump: "dump_memory ex_lib hello_memory = hello_doc"
  by (simp add: dump_memory_def dump_message_def hello_memory_def hello_doc_def ex_lib_def)

theorem save_then_load_roundtrip_witness:
  "json_load ex_lib (json_dumps ex_lib (dump_memory ex_lib hello_memory))
     = Inr (dump_memory ex_lib hello_memory)
   \<and> fromisoformat ex_lib (isoformat ex_lib 0) = Some 0
   \<and> save_try ex_lib True WriteOk ex_path hello_memory (fs_of [(ex_path, ''{}'')])
       = (None, fs_of [(ex_path, hello_text)])
   \<and> save_memory ex_lib True WriteOk ex_path hello_memory (fs_of [(ex_path, ''{}'')])
       = (None, fs_of [(ex_path, hello_text)])
   \<and> load_memory ex_lib True ex_path (fs_of [(ex_path, hello_text)])
       = (Inr hello_memory, fs_of [(ex_path, hello_text)])"
proof -
  have h1: "json_load ex_lib (json_dumps ex_lib (dump_memory ex_lib hello_memory))
     = Inr (dump_memory ex_lib hello_memory)"
    by (simp add: ex_lib_hello_dump) (simp add: ex_lib_def)
  have h2: "\<forall>m \<in> set (messages hello_memory).
        fromisoformat ex_lib (isoformat ex_lib (timestamp m)) = Some (timestamp m)"
    by (simp add: hello_memory_def ex_lib_def)
  have ws: "with_suffix ex_path ''.json.bak'' = Inr \<lparr>parent = [], name = ''chat_memory.json.bak''\<rparr>"
    by (simp add: with_suffix_def path_suffix_def rfind_def Let_def ex_path_def)
  have d: "json_dumps ex_lib hello_doc = hello_text"
    by (simp add: ex_lib_def)
  have h3: "save_try ex_lib True WriteOk ex_path hello_memory (fs_of [(ex_path, ''{}'')])
       = (None, fs_of [(ex_path, hello_text)])"
    by (simp add: save_try_def path_exists_def fs_of_def ws rename_def ex_lib_hello_dump d
        str_plus_def unlink_def)
       (auto simp: ex_path_def fun_eq_iff)
  show ?thesis
    using save_then_load_roundtrip[OF h1 h2 h3] h1 h3 by (simp add: ex_lib_def)
qed

section \<open>\<^verbatim>\<open>RateLimiter\<close>: the window\<close>

lemma requests_fold_add:
  "requests (fold add_request ts rl) = requests rl @ ts"
  by (induction ts arbitrary: rl) (simp_all add: add_request_def)

lemma max_fold_add: "max_requests (fold add_request ts rl) = max_requests rl"
  by (induction ts arbitrary: rl) (simp_all add: add_request_def)

lemma window_fold_add: "window_size (fold add_request ts rl) = window_size rl"
  by (induction ts arbitrary: rl) (simp_all add: add_request_def)

text \<open>
  The loop of \<^verbatim>\<open>can_make_request\<close> pops from the left only. On a deque in the order of the
  clock, which is the order \<^verbatim>\<open>add_request\<close> fills it in, this removes exactly the entries
  before the start of the window, and the first entry is the oldest.
\<close>

lemma dropWhile_sorted:
  "sorted ts \<Longrightarrow> dropWhile (\<lambda>t. t < a) ts = filter (\<lambda>t. a \<le> t) ts"
proof (induction ts)
  case Nil
  show ?case by simp
next
  case (Cons t ts)
  show ?case
  proof (cases "t < a")
    case True
    with Cons show ?thesis by simp
  next
    case False
    with Cons.prems have "\<forall>u \<in> set ts. a \<le> u"
      by auto
    then have "filter (\<lambda>t. a \<le> t) ts = ts"
      by (simp add: filter_id_conv)
    with False show ?thesis by simp
  qed
qed

lemma oldest_first: "sorted ts \<Longrightarrow> ts \<noteq> [] \<Longrightarrow> hd ts = Min (set ts)"
  by (cases ts) (auto intro!: Min_eqI[symmetric])

lemma can_make_request_sorted:
  assumes "sorted (requests rl)"
  shows "can_make_request now rl
           = (int (length (filter (\<lambda>t. now - timedelta (window_size rl) \<le> t) (requests rl)))
                < max_requests rl,
              rl\<lparr>requests := filter (\<lambda>t. now - timedelta (window_size rl) \<le> t) (requests rl)\<rparr>)"
  using assms by (simp add: can_make_request_def dropWhile_sorted Let_def)

text \<open>
  C9 (the sliding window). Take a limiter made with 50 requests and 60 seconds and call
  \<^verbatim>\<open>add_request\<close> 50 times, at the instants \<open>ts\<close>, in the order of the clock. At any instant
  \<open>now\<close>, \<^verbatim>\<open>can_make_request\<close> leaves in the deque exactly the recorded instants that are not
  before \<open>now\<close> minus 60 seconds, in their order, and answers whether fewer than 50 are left.
  So if every recorded instant lies within the last 60 seconds, the answer is \<^verbatim>\<open>False\<close> and
  the deque is unchanged; and if the oldest recorded instant is more than 60 seconds old,
  the answer is \<^verbatim>\<open>True\<close>.
\<close>

theorem can_make_request_window:
  assumes "length ts = 50" and "sorted ts"
  shows "can_make_request now (fold add_request ts (RateLimiter 50 60))
           = (int (length (filter (\<lambda>t. now - timedelta 60 \<le> t) ts)) < 50,
              (fold add_request ts (RateLimiter 50 60))
                \<lparr>requests := filter (\<lambda>t. now - timedelta 60 \<le> t) ts\<rparr>)
         \<and> ((\<forall>t \<in> set ts. now - timedelta 60 \<le> t) \<longrightarrow>
            can_make_request now (fold add_request ts (RateLimiter 50 60))
              = (False, fold add_request ts (RateLimiter 50 60)))
         \<and> (Min (set ts) < now - timedelta 60 \<longrightarrow>
            can_make_request now (fold add_request ts (RateLimiter 50 60))
              = (True, (fold add_request ts (RateLimiter 50 60))
                         \<lparr>requests := filter (\<lambda>t. now - timedelta 60 \<le> t) ts\<rparr>))"
proof -
  let ?rl = "fold add_request ts (RateLimiter 50 60)"
  let ?kept = "filter (\<lambda>t. now - timedelta 60 \<le> t) ts"
  have rq: "requests ?rl = ts" and mx: "max_requests ?rl = 50" and ws: "window_size ?rl = 60"
    by (simp_all add: requests_fold_add max_fold_add window_fold_add RateLimiter_def)
  have "sorted (requests ?rl)"
    using assms(2) by (simp only: rq)
  from can_make_request_sorted[OF this, of now]
  have a: "can_make_request now ?rl = (int (length ?kept) < 50, ?rl\<lparr>requests := ?kept\<rparr>)"
    by (simp only: rq mx ws)
  have b: "can_make_request now ?rl = (False, ?rl)" if "\<forall>t \<in> set ts. now - timedelta 60 \<le> t"
  proof -
    have k: "?kept = ts"
      using that by (simp add: filter_id_conv)
    have "?rl\<lparr>requests := ts\<rparr> = ?rl"
      using rq by simp
    with a k assms(1) show ?thesis
      by simp
  qed
  have c: "can_make_request now ?rl = (True, ?rl\<lparr>requests := ?kept\<rparr>)"
    if "Min (set ts) < now - timedelta 60"
  proof -
    from assms(1) have ne: "set ts \<noteq> {}"
      by auto
    have "Min (set ts) \<in> set ts"
      using ne by (intro Min_in) simp_all
    moreover have "\<not> now - timedelta 60 \<le> Min (set ts)"
      using that by simp
    ultimately have "length ?kept < length ts"
      by (rule length_filter_less)
    with a assms(1) show ?thesis
      by simp
  qed
  from a b c show ?thesis
    by blast
qed

lemma fifty_instants_sorted: "sorted fifty_instants"
proof -
  have "sorted_wrt (\<lambda>i j. start_instant + int i * 1000000 \<le> start_instant + int j * 1000000)
          [0..<50]"
    by (rule sorted_wrt_mono_rel[where P = "(\<le>)"]) simp_all
  then show ?thesis
    by (simp only: fifty_instants_def sorted_map)
qed

lemma fifty_instants_unfold:
  "fifty_instants
     = start_instant # map (\<lambda>i. start_instant + int i * 1000000) [1..<50]"
  by (simp add: fifty_instants_def upt_conv_Cons)

theorem can_make_request_window_witness:
  "length fifty_instants = 50 \<and> sorted fifty_instants
   \<and> can_make_request (start_instant + 60000000)
         (fold add_request fifty_instants (RateLimiter 50 60))
       = (False, fold add_request fifty_instants (RateLimiter 50 60))
   \<and> Min (set fifty_instants) = start_instant
   \<and> can_make_request (start_instant + 60000001)
         (fold add_request fifty_instants (RateLimiter 50 60))
       = (True, (fold add_request fifty_instants (RateLimiter 50 60))
                  \<lparr>requests := tl fifty_instants\<rparr>)"
proof -
  have l: "length fifty_instants = 50"
    by (simp add: fifty_instants_def)
  have m: "Min (set fifty_instants) = start_instant"
    using oldest_first[OF fifty_instants_sorted] by (simp add: fifty_instants_unfold)
  have w: "\<forall>t \<in> set fifty_instants. start_instant + 60000000 - timedelta 60 \<le> t"
    by (simp add: fifty_instants_def timedelta_def)
  have "\<forall>t \<in> set (tl fifty_instants). start_instant + 60000001 - timedelta 60 \<le> t"
    by (auto simp: fifty_instants_unfold timedelta_def)
  then have k: "filter (\<lambda>t. start_instant + 60000001 - timedelta 60 \<le> t) fifty_instants
                  = tl fifty_instants"
    by (simp add: fifty_instants_unfold timedelta_def filter_id_conv)
  have o: "Min (set fifty_instants) < start_instant + 60000001 - timedelta 60"
    by (simp add: m timedelta_def)
  have "requests (fold add_request fifty_instants (RateLimiter 50 60)) = fifty_instants"
    by (simp add: requests_fold_add RateLimiter_def)
  then have r: "(fold add_request fifty_instants (RateLimiter 50 60))\<lparr>requests := fifty_instants\<rparr>
                  = fold add_request fifty_instants (RateLimiter 50 60)"
    by simp
  show ?thesis
    using can_make_request_window[OF l fifty_instants_sorted, of "start_instant + 60000000"]
      can_make_request_window[OF l fifty_instants_sorted, of "start_instant + 60000001"]
      l fifty_instants_sorted m w k o r
    by simp
qed

section \<open>\<^verbatim>\<open>wait_for_capacity\<close> returns\<close>

text \<open>
  With capacity at hand the loop body never runs. With a positive limit the loop ends: each
  pass either trims the deque or brings the first entry one second closer to leaving the
  window.
\<close>

lemma wait_for_capacity_free:
  assumes "fst (can_make_request (clock st) (limiter st))"
  shows "wait_for_capacity st
           = Some (st\<lparr>limiter := snd (can_make_request (clock st) (limiter st))\<rparr>)"
  using assms by (subst wait_for_capacity.simps) simp

lemma can_make_request_fields:
  "max_requests (snd (can_make_request now rl)) = max_requests rl"
  "window_size (snd (can_make_request now rl)) = window_size rl"
  "requests (snd (can_make_request now rl))
     = dropWhile (\<lambda>t. t < now - timedelta (window_size rl)) (requests rl)"
  "fst (can_make_request now rl)
     = (int (length (dropWhile (\<lambda>t. t < now - timedelta (window_size rl)) (requests rl)))
          < max_requests rl)"
  by (simp_all add: can_make_request_def Let_def)

lemma dropWhile_keeps_all:
  assumes "\<not> length (dropWhile P xs) < length xs" and "xs \<noteq> []"
  shows "dropWhile P xs = xs \<and> \<not> P (hd xs)"
proof (cases xs)
  case Nil
  with assms show ?thesis by simp
next
  case (Cons x r)
  have "length (dropWhile P r) \<le> length r"
    by (rule length_dropWhile_le)
  with assms Cons show ?thesis
    by (auto split: if_splits)
qed

lemma wait_for_capacity_returns:
  assumes "0 < max_requests (limiter st)"
  shows "\<exists>st'. wait_for_capacity st = Some st'"
proof -
  have "wf (less_than <*lex*> less_than)"
    by (intro wf_lex_prod wf_less_than)
  from this assms show ?thesis
proof (induction "(length (requests (limiter st)),
                   nat (hd (requests (limiter st)) + timedelta (window_size (limiter st))
                        - clock st + 1))"
       arbitrary: st rule: wf_induct_rule)
  case less
  let ?r = "can_make_request (clock st) (limiter st)"
  let ?rs = "requests (limiter st)"
  let ?ws = "clock st - timedelta (window_size (limiter st))"
  let ?rs' = "dropWhile (\<lambda>t. t < ?ws) ?rs"
  show ?case
  proof (cases "fst ?r")
    case True
    then show ?thesis by (simp add: wait_for_capacity_free)
  next
    case False
    let ?st2 = "emit [Tick] (sleep 1 (st\<lparr>limiter := snd ?r\<rparr>))"
    have ne: "?rs' \<noteq> []"
    proof
      assume "?rs' = []"
      then have "fst ?r"
        using less.prems by (simp add: can_make_request_fields(4) del: dropWhile_eq_Nil_conv)
      with False show False by simp
    qed
    have lim2: "requests (limiter ?st2) = ?rs'"
      "max_requests (limiter ?st2) = max_requests (limiter st)"
      "window_size (limiter ?st2) = window_size (limiter st)"
      "clock ?st2 = clock st + timedelta 1"
      by (simp_all add: emit_def sleep_def can_make_request_fields)
    have dec: "((length (requests (limiter ?st2)),
                 nat (hd (requests (limiter ?st2)) + timedelta (window_size (limiter ?st2))
                        - clock ?st2 + 1)),
                (length ?rs,
                 nat (hd ?rs + timedelta (window_size (limiter st)) - clock st + 1)))
               \<in> less_than <*lex*> less_than"
    proof (cases "length ?rs' < length ?rs")
      case True
      then show ?thesis by (simp add: lim2)
    next
      case False
      have "?rs \<noteq> []"
        using ne by auto
      from dropWhile_keeps_all[OF False this]
      have same: "?rs' = ?rs" and "\<not> hd ?rs < ?ws"
        by simp_all
      then show ?thesis
        by (simp add: lim2 timedelta_def)
    qed
    have "\<exists>st'. wait_for_capacity ?st2 = Some st'"
      using less.hyps[OF dec] less.prems by (simp add: lim2)
    moreover have "wait_for_capacity st = wait_for_capacity ?st2"
      using False by (subst wait_for_capacity.simps) simp
    ultimately show ?thesis by simp
  qed
qed
qed

section \<open>\<^verbatim>\<open>_make_api_request\<close>: what one attempt does\<close>

text \<open>\<^verbatim>\<open>wait_for_capacity\<close> touches the limiter, the clock and the trace only.\<close>

lemma extends_refl: "extends msgs st st"
  by (simp add: extends_def)

lemma extends_trans:
  assumes "extends msgs st st1" and "extends msgs st1 st2"
  shows "extends msgs st st2"
proof -
  from assms obtain e1 e2 where
    e1: "trace st1 = trace st @ e1" "\<forall>p. Posted p \<in> set e1 \<longrightarrow> p = msgs" and
    e2: "trace st2 = trace st1 @ e2" "\<forall>p. Posted p \<in> set e2 \<longrightarrow> p = msgs"
    by (auto simp: extends_def)
  have "trace st2 = trace st @ (e1 @ e2)" "\<forall>p. Posted p \<in> set (e1 @ e2) \<longrightarrow> p = msgs"
    using e1 e2 by auto
  then show ?thesis
    using assms unfolding extends_def by metis
qed

lemma extends_tick:
  "extends msgs st (emit [Tick] (sleep 1 (st\<lparr>limiter := snd (can_make_request now (limiter st))\<rparr>)))"
  by (simp add: extends_def emit_def sleep_def can_make_request_fields)

lemma extends_trim:
  "extends msgs st (st\<lparr>limiter := snd (can_make_request now (limiter st))\<rparr>)"
  by (simp add: extends_def can_make_request_fields)


lemma wait_for_capacity_extends:
  assumes "wait_for_capacity st = Some st'"
  shows "extends msgs st st'"
proof (rule wait_for_capacity.raw_induct[where P = "extends msgs", OF _ assms])
  fix wait :: "state \<Rightarrow> state option" and s s'
  assume IH: "\<And>x y. wait x = Some y \<Longrightarrow> extends msgs x y"
    and body: "(if fst (can_make_request (clock s) (limiter s))
      then Some (s\<lparr>limiter := snd (can_make_request (clock s) (limiter s))\<rparr>)
      else wait (emit [Tick] (sleep 1 (s\<lparr>limiter := snd (can_make_request (clock s) (limiter s))\<rparr>))))
     = Some s'"
  show "extends msgs s s'"
  proof (cases "fst (can_make_request (clock s) (limiter s))")
    case True
    with body show ?thesis
      by (auto simp: extends_trim)
  next
    case False
    with body have "wait (emit [Tick] (sleep 1 (s\<lparr>limiter := snd (can_make_request (clock s) (limiter s))\<rparr>))) = Some s'"
      by simp
    from IH[OF this] show ?thesis
      using extends_tick extends_trans by blast
  qed
qed

lemma wait_for_capacity_calls:
  assumes "wait_for_capacity st = Some st'"
  shows "calls st' = calls st"
proof (rule wait_for_capacity.raw_induct[where P = "\<lambda>st st'. calls st' = calls st", OF _ assms])
  fix wait :: "state \<Rightarrow> state option" and s s'
  assume IH: "\<And>x y. wait x = Some y \<Longrightarrow> calls y = calls x"
    and body: "(if fst (can_make_request (clock s) (limiter s))
      then Some (s\<lparr>limiter := snd (can_make_request (clock s) (limiter s))\<rparr>)
      else wait (emit [Tick] (sleep 1 (s\<lparr>limiter := snd (can_make_request (clock s) (limiter s))\<rparr>))))
     = Some s'"
  show "calls s' = calls s"
  proof (cases "fst (can_make_request (clock s) (limiter s))")
    case True
    with body show ?thesis by auto
  next
    case False
    with body have "wait (emit [Tick] (sleep 1 (s\<lparr>limiter := snd (can_make_request (clock s) (limiter s))\<rparr>))) = Some s'"
      by simp
    from IH[OF this] show ?thesis
      by (simp add: emit_def sleep_def)
  qed
qed


text \<open>Evaluating a run on a session that has just started.\<close>

lemma attempts_range: "[0..<RETRY_ATTEMPTS] = [0, 1, 2]"
  by (simp add: RETRY_ATTEMPTS_def upt_conv_Cons)

lemma wait_fresh: "wait_for_capacity fresh_state = Some fresh_state"
  by (subst wait_for_capacity.simps)
     (simp add: fresh_state_def can_make_request_def RateLimiter_def RATE_LIMIT_REQUESTS_def)

text \<open>
  C8 (recording attempts), as amended, for the httpx variant. Once \<^verbatim>\<open>wait_for_capacity\<close> has
  returned, the request is made first. If the client returns a response (of any status),
  \<^verbatim>\<open>add_request\<close> then appends the current instant to the window, once; if the client
  raises (a timeout or any other exception), nothing is appended. In both cases the rest of
  the attempt makes no further request and records nothing.
\<close>

theorem record_follows_response:
  assumes "wait_for_capacity st = Some st1"
  shows "\<exists>out st' evs.
           attempt_httpx lib transport msgs attempt st = Some (out, st')
           \<and> (case transport (calls st1) of
                 Response code ra b \<Rightarrow>
                   trace st' = trace st1 @ [Waited, Posted msgs, Recorded] @ evs
                   \<and> requests (limiter st') = requests (limiter st1) @ [clock st1]
               | _ \<Rightarrow>
                   trace st' = trace st1 @ [Waited, Posted msgs] @ evs
                   \<and> requests (limiter st') = requests (limiter st1))
           \<and> Recorded \<notin> set evs \<and> (\<forall>p. Posted p \<notin> set evs)"
proof (cases "transport (calls st1)")
  case PostTimeout
  then show ?thesis
    using assms
    by (auto simp: attempt_httpx_def retry_or_raise_def posted_def emit_def sleep_def Let_def)
next
  case PostError
  then show ?thesis
    using assms
    by (auto simp: attempt_httpx_def retry_or_raise_def posted_def emit_def sleep_def Let_def)
next
  case (Response code ra b)
  then show ?thesis
    using assms
    by (cases ra; cases b)
       (auto simp: attempt_httpx_def on_response_def retry_or_raise_def posted_def
          recorded_def emit_def sleep_def add_request_def Let_def split: option.splits)
qed


lemma make_api_request_httpx_unfold:
  "make_api_request_httpx lib transport msgs st
     = run_attempts (attempt_httpx lib transport msgs) [0, 1, 2] st"
  by (simp add: make_api_request_httpx_def attempts_range)

lemma make_api_request_openai_unfold:
  "make_api_request_openai transport msgs st
     = run_attempts (attempt_openai transport msgs) [0, 1, 2] st"
  by (simp add: make_api_request_openai_def attempts_range)

lemmas run_defs =
  attempt_httpx_def attempt_openai_def on_response_def retry_or_raise_def raise_for_status_def
  posted_def recorded_def emit_def sleep_def add_request_def can_make_request_def timedelta_def
  RETRY_ATTEMPTS_def RETRY_DELAY_def RATE_LIMIT_REQUESTS_def RATE_LIMIT_WINDOW_def
  RateLimiter_def fresh_state_def start_instant_def script_def summary_def window_def Let_def
  sleep_error_def wait_for_capacity_free

text \<open>
  The claim as stated fails. Three requests that time out leave the window empty; and when
  a request succeeds, it is made before it is recorded.
\<close>

theorem record_follows_response_counterexample:
  "summary (make_api_request_httpx ex_lib always_timeout hello_prompt fresh_state)
     = Some (Inl ReadTimeout, 3,
             [Waited, Posted hello_prompt, BackoffSleep 2,
              Waited, Posted hello_prompt, BackoffSleep 4,
              Waited, Posted hello_prompt])
   \<and> window (make_api_request_httpx ex_lib always_timeout hello_prompt fresh_state) = Some []
   \<and> summary (make_api_request_httpx ex_lib always_ok hello_prompt fresh_state)
     = Some (Inr (JStr ''Hi''), 1, [Waited, Posted hello_prompt, Recorded])"
  by (simp add: make_api_request_httpx_unfold always_timeout_def always_ok_def ok_response_def
      run_defs)


theorem record_follows_response_witness:
  "wait_for_capacity fresh_state = Some fresh_state
   \<and> (\<exists>out st' evs.
           attempt_httpx ex_lib always_ok hello_prompt 0 fresh_state = Some (out, st')
           \<and> (case always_ok (calls fresh_state) of
                 Response code ra b \<Rightarrow>
                   trace st' = trace fresh_state @ [Waited, Posted hello_prompt, Recorded] @ evs
                   \<and> requests (limiter st') = requests (limiter fresh_state) @ [clock fresh_state]
               | _ \<Rightarrow>
                   trace st' = trace fresh_state @ [Waited, Posted hello_prompt] @ evs
                   \<and> requests (limiter st') = requests (limiter fresh_state))
           \<and> Recorded \<notin> set evs \<and> (\<forall>p. Posted p \<notin> set evs))"
  using record_follows_response[OF wait_fresh, of ex_lib always_ok hello_prompt 0] wait_fresh
  by simp

text \<open>
  The OpenAI variant has the same order, per call of \<^verbatim>\<open>create\<close>: the call is made first, and
  \<^verbatim>\<open>add_request\<close> runs once if it returns and not at all if it raises.
\<close>

lemma record_follows_create:
  assumes "wait_for_capacity st = Some st1"
  shows "\<exists>out st' evs.
           attempt_openai transport msgs attempt st = Some (out, st')
           \<and> (case transport (calls st1) of
                 CreateRaises e \<Rightarrow>
                   trace st' = trace st1 @ [Waited, Posted msgs] @ evs
                   \<and> requests (limiter st') = requests (limiter st1)
               | _ \<Rightarrow>
                   trace st' = trace st1 @ [Waited, Posted msgs, Recorded] @ evs
                   \<and> requests (limiter st') = requests (limiter st1) @ [clock st1])
           \<and> Recorded \<notin> set evs \<and> (\<forall>p. Posted p \<notin> set evs)"
  using assms
  by (cases "transport (calls st1)")
     (auto simp: attempt_openai_def retry_or_raise_def posted_def recorded_def emit_def
        sleep_def add_request_def Let_def)

lemma sleep_error_short: "0 \<le> d \<Longrightarrow> d \<le> 4294967 \<Longrightarrow> sleep_error lib d = None"
  by (simp add: sleep_error_def)

lemma sleep_error_nonneg: "sleep_error lib d = None \<Longrightarrow> 0 \<le> d"
  by (simp add: sleep_error_def split: if_splits)

text \<open>
  C3 (rate-limit responses), as amended, for the httpx variant. On a 429 response whose
  advertised delay is an integer \<open>d\<close> of seconds that \<^verbatim>\<open>time.sleep\<close> accepts (\<^verbatim>\<open>RETRY_DELAY\<close>
  when the header is absent; every \<open>d\<close> from 0 to 4294967 is accepted, no negative one is),
  the client records the request, sleeps \<open>d\<close> seconds, with no backoff delay, and goes on
  with the remaining passes of its loop: the 429 uses up the pass it arrived in.
\<close>

theorem rate_limit_consumes_attempt:
  assumes "wait_for_capacity st = Some st1"
    and "transport (calls st1) = Response 429 ra b"
    and "ra = HeaderAbsent \<and> d = RETRY_DELAY \<or> ra = HeaderInt d"
    and "sleep_error lib d = None"
  shows "run_attempts (attempt_httpx lib transport msgs) (attempt # rest) st
           = run_attempts (attempt_httpx lib transport msgs) rest
               (emit [RetryAfterSleep d] (sleep d (recorded (posted msgs st1))))"
  using assms
  by (auto simp: attempt_httpx_def on_response_def Let_def)

theorem rate_limit_consumes_attempt_witness:
  "wait_for_capacity fresh_state = Some fresh_state
   \<and> limited_then_ok (calls fresh_state) = Response 429 (HeaderInt 7) (Malformed KeyError)
   \<and> sleep_error ex_lib 7 = None
   \<and> run_attempts (attempt_httpx ex_lib limited_then_ok hello_prompt) [0, 1, 2] fresh_state
       = run_attempts (attempt_httpx ex_lib limited_then_ok hello_prompt) [1, 2]
           (emit [RetryAfterSleep 7] (sleep 7 (recorded (posted hello_prompt fresh_state))))
   \<and> summary (make_api_request_httpx ex_lib limited_then_ok hello_prompt fresh_state)
       = Some (Inr (JStr ''Hi''), 2,
               [Waited, Posted hello_prompt, Recorded, RetryAfterSleep 7,
                Waited, Posted hello_prompt, Recorded])"
proof -
  have h2: "limited_then_ok (calls fresh_state) = Response 429 (HeaderInt 7) (Malformed KeyError)"
    by (simp add: limited_then_ok_def script_def fresh_state_def)
  have h3: "HeaderInt 7 = HeaderAbsent \<and> (7::int) = RETRY_DELAY \<or> HeaderInt 7 = HeaderInt 7"
    by simp
  have h4: "sleep_error ex_lib 7 = None"
    by (simp add: sleep_error_def)
  have s: "summary (make_api_request_httpx ex_lib limited_then_ok hello_prompt fresh_state)
       = Some (Inr (JStr ''Hi''), 2,
               [Waited, Posted hello_prompt, Recorded, RetryAfterSleep 7,
                Waited, Posted hello_prompt, Recorded])"
    by (simp add: make_api_request_httpx_unfold limited_then_ok_def ok_response_def run_defs)
  show ?thesis
    using rate_limit_consumes_attempt[where transport = limited_then_ok and lib = ex_lib
        and msgs = hello_prompt and attempt = 0 and rest = "[1, 2]", OF wait_fresh h2 h3 h4]
      wait_fresh h2 h4 s
    by simp
qed

text \<open>
  The claim as stated fails: a 429 followed by two 500 responses ends in an
  \<^verbatim>\<open>HTTPStatusError\<close> after three requests, although a fourth request would have succeeded.
\<close>

theorem rate_limit_consumes_attempt_counterexample:
  "limited_then_two_errors 3 = Response 200 HeaderAbsent (Completion (JStr ''Hi''))
   \<and> summary (make_api_request_httpx ex_lib limited_then_two_errors hello_prompt fresh_state)
       = Some (Inl (HTTPStatusError 500), 3,
               [Waited, Posted hello_prompt, Recorded, RetryAfterSleep 7,
                Waited, Posted hello_prompt, Recorded, BackoffSleep 4,
                Waited, Posted hello_prompt, Recorded])"
  by (simp add: make_api_request_httpx_unfold limited_then_two_errors_def ok_response_def run_defs)

text \<open>
  A 429 whose delay \<^verbatim>\<open>time.sleep\<close> refuses, or whose header is no integer, is handled like a
  failed request: the exception reaches the \<^verbatim>\<open>except\<close> clauses, which back off and retry,
  or re-raise on the last pass. A wait of ten thousand million seconds is refused
  everywhere.
\<close>

lemma rate_limit_wait_refused:
  assumes "wait_for_capacity st = Some st1"
    and "transport (calls st1) = Response 429 ra b"
    and "ra = HeaderOther \<and> e = ValueError
         \<or> ra = HeaderAbsent \<and> sleep_error lib RETRY_DELAY = Some e
         \<or> (\<exists>d. ra = HeaderInt d \<and> sleep_error lib d = Some e)"
  shows "attempt_httpx lib transport msgs attempt st
           = Some (retry_or_raise e attempt (recorded (posted msgs st1)))"
  using assms
  by (auto simp: attempt_httpx_def on_response_def Let_def)

lemma long_wait_backs_off:
  "summary (make_api_request_httpx lib long_wait_then_ok hello_prompt fresh_state)
     = Some (Inr (JStr ''Hi''), 2,
             [Waited, Posted hello_prompt, Recorded, BackoffSleep 2,
              Waited, Posted hello_prompt, Recorded])"
  by (simp add: make_api_request_httpx_unfold long_wait_then_ok_def ok_response_def run_defs)

text \<open>
  C4 (client errors), as amended, for the httpx variant. A response with a 4xx status other
  than 429 is handled as every status error is: the request is recorded; on the first two
  passes the client sleeps \<^verbatim>\<open>RETRY_DELAY * (attempt + 1)\<close> seconds and retries; on the last
  pass it re-raises the \<^verbatim>\<open>HTTPStatusError\<close>.
\<close>

theorem client_error_is_retried:
  assumes "wait_for_capacity st = Some st1"
    and "transport (calls st1) = Response code ra b"
    and "400 \<le> code" and "code \<le> 499" and "code \<noteq> 429"
  shows "attempt_httpx lib transport msgs attempt st
           = Some (if attempt < 2
                   then (Continue,
                         emit [BackoffSleep (2 * (int attempt + 1))]
                           (sleep (2 * (int attempt + 1)) (recorded (posted msgs st1))))
                   else (Raise (HTTPStatusError code), recorded (posted msgs st1)))"
  using assms
  by (simp add: attempt_httpx_def on_response_def retry_or_raise_def raise_for_status_def
      RETRY_ATTEMPTS_def RETRY_DELAY_def Let_def)

theorem client_error_is_retried_witness:
  "wait_for_capacity fresh_state = Some fresh_state
   \<and> not_found_then_ok (calls fresh_state) = Response 404 HeaderAbsent (Malformed KeyError)
   \<and> (400::nat) \<le> 404 \<and> (404::nat) \<le> 499 \<and> (404::nat) \<noteq> 429
   \<and> attempt_httpx ex_lib not_found_then_ok hello_prompt 0 fresh_state
       = Some (Continue,
               emit [BackoffSleep 2] (sleep 2 (recorded (posted hello_prompt fresh_state))))"
proof -
  have h2: "not_found_then_ok (calls fresh_state) = Response 404 HeaderAbsent (Malformed KeyError)"
    by (simp add: not_found_then_ok_def script_def fresh_state_def)
  show ?thesis
    using client_error_is_retried[where transport = not_found_then_ok and lib = ex_lib
        and msgs = hello_prompt and attempt = 0, OF wait_fresh h2] wait_fresh h2
    by simp
qed

text \<open>
  The claim as stated fails: after a 404 the client waits two seconds, asks again and
  returns the answer to the second request.
\<close>

theorem client_error_is_retried_counterexample:
  "summary (make_api_request_httpx ex_lib not_found_then_ok hello_prompt fresh_state)
     = Some (Inr (JStr ''Hi''), 2,
             [Waited, Posted hello_prompt, Recorded, BackoffSleep 2,
              Waited, Posted hello_prompt, Recorded])"
  by (simp add: make_api_request_httpx_unfold not_found_then_ok_def ok_response_def run_defs)

section \<open>\<^verbatim>\<open>_make_api_request\<close> and \<^verbatim>\<open>chat\<close>: the whole run\<close>

text \<open>
  Each step of an attempt, each attempt and the whole loop keep the memory and the files,
  and every request they make carries the messages they were given. With a positive limit
  the loop returns, and its first pass makes a request.
\<close>

lemma extends_posted: "extends msgs st (posted msgs st)"
  by (simp add: extends_def posted_def emit_def)

lemma extends_recorded: "extends msgs st (recorded st)"
  by (simp add: extends_def recorded_def emit_def add_request_def)

lemma extends_sleep: "extends msgs st (emit [BackoffSleep d] (sleep d' st))"
  "extends msgs st (emit [RetryAfterSleep d] (sleep d' st))"
  by (simp_all add: extends_def emit_def sleep_def)

lemma extends_retry_or_raise:
  "retry_or_raise e attempt st = (out, st') \<Longrightarrow> extends msgs st st'"
  by (auto simp: retry_or_raise_def extends_sleep extends_refl split: if_splits)

lemma extends_on_response:
  assumes "on_response lib attempt code ra b st = (out, st')"
  shows "extends msgs st st'"
proof -
  have r: "extends msgs st (recorded st)"
    by (rule extends_recorded)
  have "extends msgs (recorded st) st'"
    using assms
    by (auto simp: on_response_def Let_def extends_sleep extends_refl
        split: if_splits option.splits retry_after.splits body.splits
        dest: extends_retry_or_raise)
  with r show ?thesis
    by (rule extends_trans)
qed

lemma trace_posted:
  "trace (posted msgs st) = trace st @ [Waited, Posted msgs]"
  by (simp add: posted_def emit_def)

lemma attempt_httpx_extends:
  assumes "attempt_httpx lib transport msgs attempt st = Some (out, st')"
  shows "extends msgs st st'"
    and "\<exists>e1 e2. trace st' = trace st @ e1 @ [Posted msgs] @ e2"
proof -
  from assms obtain st1 where w: "wait_for_capacity st = Some st1"
    by (auto simp: attempt_httpx_def split: option.splits)
  have a: "extends msgs st st1"
    using w by (rule wait_for_capacity_extends)
  have b: "extends msgs st1 (posted msgs st1)"
    by (rule extends_posted)
  have c: "extends msgs (posted msgs st1) st'"
    using assms w
    by (auto simp: attempt_httpx_def Let_def split: post_result.splits
        dest: extends_retry_or_raise extends_on_response)
  show "extends msgs st st'"
    using a b c extends_trans by blast
  from a obtain ea where ea: "trace st1 = trace st @ ea"
    by (auto simp: extends_def)
  from c obtain ec where ec: "trace st' = trace (posted msgs st1) @ ec"
    by (auto simp: extends_def)
  have "trace st' = trace st @ (ea @ [Waited]) @ [Posted msgs] @ ec"
    using ea ec by (simp add: trace_posted)
  then show "\<exists>e1 e2. trace st' = trace st @ e1 @ [Posted msgs] @ e2"
    by blast
qed

lemma attempt_openai_extends:
  assumes "attempt_openai transport msgs attempt st = Some (out, st')"
  shows "extends msgs st st'"
    and "\<exists>e1 e2. trace st' = trace st @ e1 @ [Posted msgs] @ e2"
proof -
  from assms obtain st1 where w: "wait_for_capacity st = Some st1"
    by (auto simp: attempt_openai_def split: option.splits)
  have a: "extends msgs st st1"
    using w by (rule wait_for_capacity_extends)
  have b: "extends msgs st1 (posted msgs st1)"
    by (rule extends_posted)
  have r: "extends msgs (posted msgs st1) (recorded (posted msgs st1))"
    by (rule extends_recorded)
  have c: "extends msgs (posted msgs st1) st'"
    using assms w r
    by (auto simp: attempt_openai_def Let_def split: create_result.splits
        dest: extends_retry_or_raise intro: extends_trans)
  show "extends msgs st st'"
    using a b c extends_trans by blast
  from a obtain ea where ea: "trace st1 = trace st @ ea"
    by (auto simp: extends_def)
  from c obtain ec where ec: "trace st' = trace (posted msgs st1) @ ec"
    by (auto simp: extends_def)
  have "trace st' = trace st @ (ea @ [Waited]) @ [Posted msgs] @ ec"
    using ea ec by (simp add: trace_posted)
  then show "\<exists>e1 e2. trace st' = trace st @ e1 @ [Posted msgs] @ e2"
    by blast
qed


lemma run_attempts_extends:
  assumes "\<And>a s out s'. body a s = Some (out, s') \<Longrightarrow> extends msgs s s'"
    and "run_attempts body as st = Some (r, st')"
  shows "extends msgs st st'"
  using assms(2)
proof (induction as arbitrary: st)
  case Nil
  then show ?case by (simp add: extends_refl)
next
  case (Cons a as)
  from Cons.prems obtain out s1 where b: "body a st = Some (out, s1)"
    by (auto split: option.splits)
  have e: "extends msgs st s1"
    using assms(1)[OF b] .
  show ?case
  proof (cases out)
    case Continue
    with Cons.prems b have "run_attempts body as s1 = Some (r, st')"
      by simp
    from Cons.IH[OF this] e show ?thesis
      using extends_trans by blast
  next
    case (Return x)
    with Cons.prems b e show ?thesis by auto
  next
    case (Raise x)
    with Cons.prems b e show ?thesis by auto
  qed
qed

lemma run_attempts_posts:
  assumes "\<And>a s out s'. body a s = Some (out, s') \<Longrightarrow> extends msgs s s'"
    and "\<And>a s out s'. body a s = Some (out, s')
           \<Longrightarrow> \<exists>e1 e2. trace s' = trace s @ e1 @ [Posted msgs] @ e2"
    and "run_attempts body (a # as) st = Some (r, st')"
  shows "\<exists>e1 e2. trace st' = trace st @ e1 @ [Posted msgs] @ e2"
proof -
  from assms(3) obtain out s1 where b: "body a st = Some (out, s1)"
    by (auto split: option.splits)
  from assms(2)[OF b] obtain e1 e2 where t1: "trace s1 = trace st @ e1 @ [Posted msgs] @ e2"
    by blast
  have "\<exists>e3. trace st' = trace s1 @ e3"
  proof (cases out)
    case Continue
    with assms(3) b have rest: "run_attempts body as s1 = Some (r, st')"
      by simp
    have "extends msgs s1 st'"
      by (rule run_attempts_extends[where body = body and msgs = msgs and r = r and as = as])
         (use assms(1) rest in blast)+
    then show ?thesis
      by (auto simp: extends_def)
  next
    case (Return x)
    with assms(3) b show ?thesis by auto
  next
    case (Raise x)
    with assms(3) b show ?thesis by auto
  qed
  then obtain e3 where "trace st' = trace s1 @ e3"
    by blast
  with t1 have "trace st' = trace st @ e1 @ [Posted msgs] @ (e2 @ e3)"
    by simp
  then show ?thesis by blast
qed

lemma run_attempts_returns:
  assumes "\<And>a s out s'. body a s = Some (out, s') \<Longrightarrow> extends msgs s s'"
    and "\<And>a s. 0 < max_requests (limiter s) \<Longrightarrow> \<exists>out s'. body a s = Some (out, s')"
    and "0 < max_requests (limiter st)"
  shows "\<exists>r st'. run_attempts body as st = Some (r, st')"
  using assms(3)
proof (induction as arbitrary: st)
  case Nil
  then show ?case by simp
next
  case (Cons a as)
  from assms(2)[OF Cons.prems] obtain out s1 where b: "body a st = Some (out, s1)"
    by blast
  have "0 < max_requests (limiter s1)"
    using assms(1)[OF b] Cons.prems by (simp add: extends_def)
  from Cons.IH[OF this] b show ?case
    by (cases out) auto
qed

lemma attempt_httpx_returns:
  assumes "0 < max_requests (limiter st)"
  shows "\<exists>out st'. attempt_httpx lib transport msgs attempt st = Some (out, st')"
proof -
  from wait_for_capacity_returns[OF assms] obtain st1 where "wait_for_capacity st = Some st1"
    by blast
  then show ?thesis
    by (simp add: attempt_httpx_def Let_def)
qed

lemma attempt_openai_returns:
  assumes "0 < max_requests (limiter st)"
  shows "\<exists>out st'. attempt_openai transport msgs attempt st = Some (out, st')"
proof -
  from wait_for_capacity_returns[OF assms] obtain st1 where "wait_for_capacity st = Some st1"
    by blast
  then show ?thesis
    by (simp add: attempt_openai_def Let_def)
qed


lemma make_api_request_httpx_run:
  assumes "0 < max_requests (limiter st)"
  shows "\<exists>r st' evs. make_api_request_httpx lib transport msgs st = Some (r, st')
           \<and> extends msgs st st' \<and> trace st' = trace st @ evs
           \<and> Posted msgs \<in> set evs \<and> (\<forall>p. Posted p \<in> set evs \<longrightarrow> p = msgs)"
proof -
  let ?body = "attempt_httpx lib transport msgs"
  have "\<exists>r st'. run_attempts ?body [0, 1, 2] st = Some (r, st')"
  proof (rule run_attempts_returns[where body = ?body and msgs = msgs])
    show "\<And>a s out s'. ?body a s = Some (out, s') \<Longrightarrow> extends msgs s s'"
      by (rule attempt_httpx_extends(1))
    show "\<And>a s. 0 < max_requests (limiter s) \<Longrightarrow> \<exists>out s'. ?body a s = Some (out, s')"
      by (rule attempt_httpx_returns)
    show "0 < max_requests (limiter st)"
      by (rule assms)
  qed
  then obtain r st' where run: "run_attempts ?body [0, 1, 2] st = Some (r, st')"
    by blast
  have e: "extends msgs st st'"
  proof (rule run_attempts_extends[where body = ?body and r = r and as = "[0, 1, 2]"])
    show "\<And>a s out s'. ?body a s = Some (out, s') \<Longrightarrow> extends msgs s s'"
      by (rule attempt_httpx_extends(1))
    show "run_attempts ?body [0, 1, 2] st = Some (r, st')"
      by (rule run)
  qed
  have "\<exists>e1 e2. trace st' = trace st @ e1 @ [Posted msgs] @ e2"
  proof (rule run_attempts_posts[where body = ?body and r = r and a = 0 and as = "[1, 2]"])
    show "\<And>a s out s'. ?body a s = Some (out, s') \<Longrightarrow> extends msgs s s'"
      by (rule attempt_httpx_extends(1))
    show "\<And>a s out s'. ?body a s = Some (out, s')
           \<Longrightarrow> \<exists>e1 e2. trace s' = trace s @ e1 @ [Posted msgs] @ e2"
      by (rule attempt_httpx_extends(2))
    show "run_attempts ?body [0, 1, 2] st = Some (r, st')"
      by (rule run)
  qed
  then obtain e1 e2 where t: "trace st' = trace st @ e1 @ [Posted msgs] @ e2"
    by blast
  from e obtain evs where
    v: "trace st' = trace st @ evs" "\<forall>p. Posted p \<in> set evs \<longrightarrow> p = msgs"
    unfolding extends_def by blast
  from t v(1) have "evs = e1 @ [Posted msgs] @ e2"
    by simp
  then have m: "Posted msgs \<in> set evs"
    by simp
  have "make_api_request_httpx lib transport msgs st = Some (r, st')"
    using run by (simp only: make_api_request_httpx_unfold)
  with e v m show ?thesis
    by blast
qed

lemma make_api_request_openai_run:
  assumes "0 < max_requests (limiter st)"
  shows "\<exists>r st' evs. make_api_request_openai transport msgs st = Some (r, st')
           \<and> extends msgs st st' \<and> trace st' = trace st @ evs
           \<and> Posted msgs \<in> set evs \<and> (\<forall>p. Posted p \<in> set evs \<longrightarrow> p = msgs)"
proof -
  let ?body = "attempt_openai transport msgs"
  have "\<exists>r st'. run_attempts ?body [0, 1, 2] st = Some (r, st')"
  proof (rule run_attempts_returns[where body = ?body and msgs = msgs])
    show "\<And>a s out s'. ?body a s = Some (out, s') \<Longrightarrow> extends msgs s s'"
      by (rule attempt_openai_extends(1))
    show "\<And>a s. 0 < max_requests (limiter s) \<Longrightarrow> \<exists>out s'. ?body a s = Some (out, s')"
      by (rule attempt_openai_returns)
    show "0 < max_requests (limiter st)"
      by (rule assms)
  qed
  then obtain r st' where run: "run_attempts ?body [0, 1, 2] st = Some (r, st')"
    by blast
  have e: "extends msgs st st'"
  proof (rule run_attempts_extends[where body = ?body and r = r and as = "[0, 1, 2]"])
    show "\<And>a s out s'. ?body a s = Some (out, s') \<Longrightarrow> extends msgs s s'"
      by (rule attempt_openai_extends(1))
    show "run_attempts ?body [0, 1, 2] st = Some (r, st')"
      by (rule run)
  qed
  have "\<exists>e1 e2. trace st' = trace st @ e1 @ [Posted msgs] @ e2"
  proof (rule run_attempts_posts[where body = ?body and r = r and a = 0 and as = "[1, 2]"])
    show "\<And>a s out s'. ?body a s = Some (out, s') \<Longrightarrow> extends msgs s s'"
      by (rule attempt_openai_extends(1))
    show "\<And>a s out s'. ?body a s = Some (out, s')
           \<Longrightarrow> \<exists>e1 e2. trace s' = trace s @ e1 @ [Posted msgs] @ e2"
      by (rule attempt_openai_extends(2))
    show "run_attempts ?body [0, 1, 2] st = Some (r, st')"
      by (rule run)
  qed
  then obtain e1 e2 where t: "trace st' = trace st @ e1 @ [Posted msgs] @ e2"
    by blast
  from e obtain evs where
    v: "trace st' = trace st @ evs" "\<forall>p. Posted p \<in> set evs \<longrightarrow> p = msgs"
    unfolding extends_def by blast
  from t v(1) have "evs = e1 @ [Posted msgs] @ e2"
    by simp
  then have m: "Posted msgs \<in> set evs"
    by simp
  have "make_api_request_openai transport msgs st = Some (r, st')"
    using run by (simp only: make_api_request_openai_unfold)
  with e v m show ?thesis
    by blast
qed

lemma chat_after_request_trace:
  "trace (snd (chat_after_request lib posix wo memory_file message r st)) = trace st"
  by (auto simp: chat_after_request_def append_message_def Let_def
      split: sum.splits option.splits prod.splits)

text \<open>
  C7 (the prompt), as amended. For a message that is neither empty nor all whitespace, and a
  limiter with a positive limit, \<^verbatim>\<open>chat\<close> returns, it makes at least one request, and every
  request it makes carries the same prompt. In the OpenAI variant the prompt is the system
  message \<^verbatim>\<open>SYSTEM_MESSAGE\<close>, then the stored messages whose role is not \<^verbatim>\<open>system\<close>, in
  their stored order, then the new user message. In the httpx variant it is all the stored
  messages in their stored order, then the new user message, with no preamble.
\<close>

theorem chat_prompt:
  assumes "message \<noteq> []" and "strip message \<noteq> []" and "0 < max_requests (limiter st)"
  shows "(\<exists>text st' evs.
            chat_openai lib posix wo memory_file SYSTEM_MESSAGE transport message st
              = Some (text, st')
            \<and> trace st' = trace st @ evs
            \<and> (\<exists>p. Posted p \<in> set evs)
            \<and> (\<forall>p. Posted p \<in> set evs \<longrightarrow>
                  p = [(''system'', SYSTEM_MESSAGE)]
                      @ map (\<lambda>msg. (role msg, content msg))
                          (filter (\<lambda>msg. role msg \<noteq> ''system'') (messages (memory st)))
                      @ [(''user'', message)]))
         \<and> (\<exists>text st' evs.
            chat_httpx lib posix wo memory_file transport' message st = Some (text, st')
            \<and> trace st' = trace st @ evs
            \<and> (\<exists>p. Posted p \<in> set evs)
            \<and> (\<forall>p. Posted p \<in> set evs \<longrightarrow>
                  p = map (\<lambda>msg. (role msg, content msg)) (messages (memory st))
                      @ [(''user'', message)]))"
proof
  let ?p = "[(''system'', SYSTEM_MESSAGE)]
            @ map (\<lambda>msg. (role msg, content msg))
                (filter (\<lambda>msg. role msg \<noteq> ''system'') (messages (memory st)))
            @ [(''user'', message)]"
  from make_api_request_openai_run[OF assms(3), of transport ?p]
  obtain r st1 evs where
    run: "make_api_request_openai transport ?p st = Some (r, st1)"
    and tr: "trace st1 = trace st @ evs" "Posted ?p \<in> set evs"
      "\<forall>p. Posted p \<in> set evs \<longrightarrow> p = ?p"
    by blast
  let ?res = "chat_after_request lib posix wo memory_file message r st1"
  have "chat_openai lib posix wo memory_file SYSTEM_MESSAGE transport message st
          = Some (fst ?res, snd ?res)"
    using assms(1,2) run by (simp add: chat_openai_def)
  moreover have "trace (snd ?res) = trace st @ evs"
    using tr(1) by (simp add: chat_after_request_trace)
  ultimately show "\<exists>text st' evs.
            chat_openai lib posix wo memory_file SYSTEM_MESSAGE transport message st
              = Some (text, st')
            \<and> trace st' = trace st @ evs
            \<and> (\<exists>p. Posted p \<in> set evs)
            \<and> (\<forall>p. Posted p \<in> set evs \<longrightarrow> p = ?p)"
    using tr(2,3) by blast
next
  let ?p = "map (\<lambda>msg. (role msg, content msg)) (messages (memory st)) @ [(''user'', message)]"
  from make_api_request_httpx_run[OF assms(3), of lib transport' ?p]
  obtain r st1 evs where
    run: "make_api_request_httpx lib transport' ?p st = Some (r, st1)"
    and tr: "trace st1 = trace st @ evs" "Posted ?p \<in> set evs"
      "\<forall>p. Posted p \<in> set evs \<longrightarrow> p = ?p"
    by blast
  let ?res = "chat_after_request lib posix wo memory_file message r st1"
  have "chat_httpx lib posix wo memory_file transport' message st = Some (fst ?res, snd ?res)"
    using assms(1,2) run by (simp add: chat_httpx_def)
  moreover have "trace (snd ?res) = trace st @ evs"
    using tr(1) by (simp add: chat_after_request_trace)
  ultimately show "\<exists>text st' evs.
            chat_httpx lib posix wo memory_file transport' message st = Some (text, st')
            \<and> trace st' = trace st @ evs
            \<and> (\<exists>p. Posted p \<in> set evs)
            \<and> (\<forall>p. Posted p \<in> set evs \<longrightarrow> p = ?p)"
    using tr(2,3) by blast
qed


lemma strip_hello: "strip ''Hello'' \<noteq> []"
  by (simp add: strip_def isspace_def)

lemmas chat_defs =
  chat_httpx_def chat_openai_def chat_after_request_def append_message_def remembered_def
  save_memory_def save_try_def path_exists_def fs_of_def str_plus_def unlink_def ChatMemory_def
  briefed_state_def hello_prompt_def briefed_prompt_def validate_str_def

theorem chat_prompt_witness:
  "''Hello'' \<noteq> [] \<and> strip ''Hello'' \<noteq> [] \<and> 0 < max_requests (limiter fresh_state)
   \<and> summary (chat_openai ex_lib True WriteOk ex_path ''P'' always_created ''Hello'' fresh_state)
       = Some (JStr ''Hi'', 1, [Waited, Posted [(''system'', ''P''), (''user'', ''Hello'')], Recorded])
   \<and> summary (chat_httpx ex_lib True WriteOk ex_path always_ok ''Hello'' fresh_state)
       = Some (JStr ''Hi'', 1, [Waited, Posted [(''user'', ''Hello'')], Recorded])"
proof -
  have h1: "''Hello'' \<noteq> []"
    by simp
  have h3: "0 < max_requests (limiter fresh_state)"
    by (simp add: fresh_state_def RateLimiter_def RATE_LIMIT_REQUESTS_def)
  have a: "summary (chat_openai ex_lib True WriteOk ex_path ''P'' always_created ''Hello'' fresh_state)
       = Some (JStr ''Hi'', 1, [Waited, Posted [(''system'', ''P''), (''user'', ''Hello'')], Recorded])"
    using strip_hello
    by (simp add: chat_defs make_api_request_openai_unfold always_created_def run_defs)
  have b: "summary (chat_httpx ex_lib True WriteOk ex_path always_ok ''Hello'' fresh_state)
       = Some (JStr ''Hi'', 1, [Waited, Posted [(''user'', ''Hello'')], Recorded])"
    using strip_hello
    by (simp add: chat_defs make_api_request_httpx_unfold always_ok_def ok_response_def run_defs)
  show ?thesis
    using chat_prompt[OF h1 strip_hello h3, of ex_lib True WriteOk ex_path "''P''" always_created
        always_ok] h1 strip_hello h3 a b
    by simp
qed

text \<open>
  The claim as stated fails. The OpenAI variant leaves a stored system message out of the
  prompt; the httpx variant sends no preamble.
\<close>

theorem chat_prompt_counterexample:
  "messages (memory briefed_state)
     = [\<lparr>role = ''system'', content = ''Be brief'', timestamp = 0\<rparr>]
   \<and> summary (chat_openai ex_lib True WriteOk ex_path ''P'' always_created ''Hello'' briefed_state)
       = Some (JStr ''Hi'', 1, [Waited, Posted briefed_prompt, Recorded])
   \<and> briefed_prompt = [(''system'', ''P''), (''user'', ''Hello'')]
   \<and> summary (chat_httpx ex_lib True WriteOk ex_path always_ok ''Hello'' fresh_state)
       = Some (JStr ''Hi'', 1, [Waited, Posted hello_prompt, Recorded])
   \<and> hello_prompt = [(''user'', ''Hello'')]"
  using strip_hello
  by (simp add: chat_defs make_api_request_openai_unfold make_api_request_httpx_unfold
      always_created_def always_ok_def ok_response_def run_defs)

text \<open>
  C6 (failures leave the memory alone). In the httpx variant, when every request is
  answered 429, the loop of \<^verbatim>\<open>_make_api_request\<close> runs out after three requests and the
  function returns \<^verbatim>\<open>None\<close> instead of raising. \<^verbatim>\<open>chat\<close> then appends the user message to the
  memory, fails to build the assistant message, and returns the error text: the memory has
  changed although no answer was obtained. This holds for every library, platform and
  write outcome.
\<close>

theorem chat_rate_limited_three_times:
  "summary (make_api_request_httpx lib always_limited hello_prompt fresh_state)
     = Some (Inr JNull, 3,
             [Waited, Posted hello_prompt, Recorded, RetryAfterSleep 2,
              Waited, Posted hello_prompt, Recorded, RetryAfterSleep 2,
              Waited, Posted hello_prompt, Recorded, RetryAfterSleep 2])
   \<and> remembered (chat_httpx lib posix wo ex_path always_limited ''Hello'' fresh_state)
     = Some (JStr (''Error: '' @ exc_str lib ValidationError),
             [\<lparr>role = ''user'', content = ''Hello'', timestamp = start_instant + 6000000\<rparr>])"
  using strip_hello
  by (simp add: chat_defs make_api_request_httpx_unfold always_limited_def run_defs)

text \<open>
  The same happens after one request when the answer is a 200 whose completion has \<^verbatim>\<open>null\<close>
  for content: \<^verbatim>\<open>_make_api_request\<close> returns the \<^verbatim>\<open>None\<close> it found.
\<close>

lemma chat_null_content:
  "summary (make_api_request_httpx lib null_content hello_prompt fresh_state)
     = Some (Inr JNull, 1, [Waited, Posted hello_prompt, Recorded])
   \<and> remembered (chat_httpx lib posix wo ex_path null_content ''Hello'' fresh_state)
     = Some (JStr (''Error: '' @ exc_str lib ValidationError),
             [\<lparr>role = ''user'', content = ''Hello'', timestamp = start_instant\<rparr>])"
  using strip_hello
  by (simp add: chat_defs make_api_request_httpx_unfold null_content_def run_defs)


text \<open>
  What does hold of \<^verbatim>\<open>chat\<close>: with a positive limit it always returns a text; when
  \<^verbatim>\<open>_make_api_request\<close> raises, the text is the error text and memory and files are as
  before; and the loop of the OpenAI variant never runs out, so that it returns \<^verbatim>\<open>None\<close> only
  if the client hands it a completion without content.
\<close>

lemma chat_httpx_returns:
  assumes "0 < max_requests (limiter st)"
  shows "\<exists>text st'. chat_httpx lib posix wo memory_file transport message st = Some (text, st')"
proof (cases "message = [] \<or> strip message = []")
  case True
  then show ?thesis by (simp add: chat_httpx_def)
next
  case False
  let ?p = "map (\<lambda>msg. (role msg, content msg)) (messages (memory st)) @ [(''user'', message)]"
  from make_api_request_httpx_run[OF assms, of lib transport ?p]
  obtain r st1 where "make_api_request_httpx lib transport ?p st = Some (r, st1)"
    by blast
  with False show ?thesis
    by (simp add: chat_httpx_def)
qed

lemma chat_openai_returns:
  assumes "0 < max_requests (limiter st)"
  shows "\<exists>text st'. chat_openai lib posix wo memory_file SYSTEM_MESSAGE transport message st
           = Some (text, st')"
proof (cases "message = [] \<or> strip message = []")
  case True
  then show ?thesis by (simp add: chat_openai_def)
next
  case False
  let ?p = "[(''system'', SYSTEM_MESSAGE)]
            @ map (\<lambda>msg. (role msg, content msg))
                (filter (\<lambda>msg. role msg \<noteq> ''system'') (messages (memory st)))
            @ [(''user'', message)]"
  from make_api_request_openai_run[OF assms, of transport ?p]
  obtain r st1 where "make_api_request_openai transport ?p st = Some (r, st1)"
    by blast
  with False show ?thesis
    by (simp add: chat_openai_def)
qed

lemma chat_httpx_when_request_raises:
  assumes "message \<noteq> []" and "strip message \<noteq> []"
    and "make_api_request_httpx lib transport
           (map (\<lambda>msg. (role msg, content msg)) (messages (memory st)) @ [(''user'', message)]) st
         = Some (Inl e, st1)"
  shows "chat_httpx lib posix wo memory_file transport message st
           = Some (JStr (''Error: '' @ exc_str lib e), st1)"
    and "memory st1 = memory st" and "files st1 = files st"
proof -
  show "chat_httpx lib posix wo memory_file transport message st
           = Some (JStr (''Error: '' @ exc_str lib e), st1)"
    using assms by (simp add: chat_httpx_def chat_after_request_def)
  let ?p = "map (\<lambda>msg. (role msg, content msg)) (messages (memory st)) @ [(''user'', message)]"
  have "extends ?p st st1"
  proof (rule run_attempts_extends[where body = "attempt_httpx lib transport ?p"
        and r = "Inl e" and as = "[0, 1, 2]"])
    show "\<And>a s out s'. attempt_httpx lib transport ?p a s = Some (out, s') \<Longrightarrow> extends ?p s s'"
      by (rule attempt_httpx_extends(1))
    show "run_attempts (attempt_httpx lib transport ?p) [0, 1, 2] st = Some (Inl e, st1)"
      using assms(3) by (simp only: make_api_request_httpx_unfold)
  qed
  then show "memory st1 = memory st" and "files st1 = files st"
    by (simp_all add: extends_def)
qed

lemma attempt_openai_outcome:
  assumes "attempt_openai transport msgs attempt st = Some (out, st')"
  shows "(out = Continue \<longrightarrow> attempt < 2)
         \<and> (out = Return JNull \<longrightarrow> (\<exists>n. transport n = Created None))"
  using assms
  by (auto simp: attempt_openai_def retry_or_raise_def RETRY_ATTEMPTS_def Let_def
      split: option.splits create_result.splits if_splits)

lemma make_api_request_openai_none:
  assumes "make_api_request_openai transport msgs st = Some (Inr JNull, st')"
  shows "\<exists>n. transport n = Created None"
proof -
  let ?body = "attempt_openai transport msgs"
  have run: "run_attempts ?body [0, 1, 2] st = Some (Inr JNull, st')"
    using assms by (simp only: make_api_request_openai_unfold)
  then obtain o0 s0 where b0: "?body 0 st = Some (o0, s0)"
    by (auto split: option.splits)
  note f0 = attempt_openai_outcome[OF b0]
  show ?thesis
  proof (cases o0)
    case (Return x)
    with run b0 f0 show ?thesis by auto
  next
    case (Raise x)
    with run b0 show ?thesis by auto
  next
    case Continue
    with run b0 have run1: "run_attempts ?body [1, 2] s0 = Some (Inr JNull, st')"
      by simp
    then obtain o1 s1 where b1: "?body 1 s0 = Some (o1, s1)"
      by (auto split: option.splits)
    note f1 = attempt_openai_outcome[OF b1]
    show ?thesis
    proof (cases o1)
      case (Return x)
      with run1 b1 f1 show ?thesis by auto
    next
      case (Raise x)
      with run1 b1 show ?thesis by auto
    next
      case Continue
      with run1 b1 have run2: "run_attempts ?body [2] s1 = Some (Inr JNull, st')"
        by simp
      then obtain o2 s2 where b2: "?body 2 s1 = Some (o2, s2)"
        by (auto split: option.splits)
      note f2 = attempt_openai_outcome[OF b2]
      show ?thesis
      proof (cases o2)
        case (Return x)
        with run2 b2 f2 show ?thesis by auto
      next
        case (Raise x)
        with run2 b2 show ?thesis by auto
      next
        case Continue
        with f2 show ?thesis by simp
      qed
    qed
  qed
qed

end
